theory Spec2Isabelle
  imports Main "HOL-Library.Word" "HOL-Library.AList"
begin

unbundle bit_operations_syntax

section \<open>Exceptions of the adapter as values\<close>

text \<open>
  Every exception the modelled code can raise is a value of this type.  The two classes
  declared in \<^verbatim>\<open>adapter.py\<close> (\<^verbatim>\<open>AnvilChunkFormatError\<close>, \<^verbatim>\<open>SessionLockLost\<close>) stand beside the
  Python built-ins the code raises or lets escape.
\<close>

datatype error =
    ValueError
  | TypeError
  | IndexError
  | KeyError
  | AttributeError
  | AssertionError
  | IOError
  | OSError
  | ZlibError
  | StructError
  | SessionLockLost
  | AnvilChunkFormatError
  | PlayerNotFound

text \<open>
  A statement that may raise, followed by the rest of the function: the rest runs on the
  value when there is one, and an exception ends the function.
\<close>

definition seq :: "error + 'a \<Rightarrow> ('a \<Rightarrow> error + 'b) \<Rightarrow> error + 'b" where
  "seq m f = (case m of Inl e \<Rightarrow> Inl e | Inr v \<Rightarrow> f v)"

section \<open>numpy arrays\<close>

text \<open>
  An array is its shape and its elements in C (row-major) order; the element type carries
  the dtype (\<open>8 word\<close> for uint8, \<open>16 word\<close> for uint16).  In row-major order the last axis
  is contiguous, so the cells \<open>[i, j, 2k]\<close> and \<open>[i, j, 2k+1]\<close> of an array are the
  neighbours \<open>2n\<close> and \<open>2n+1\<close> of its element list.
\<close>

record 'a ndarray =
  shape :: "nat list"
  elems :: "'a list"

definition arr_ok :: "'a ndarray \<Rightarrow> bool" where
  "arr_ok a \<longleftrightarrow> length (elems a) = prod_list (shape a)"

text \<open>\<^verbatim>\<open>a.shape = s\<close>: numpy raises ValueError unless the sizes agree.\<close>

definition set_shape :: "nat list \<Rightarrow> 'a ndarray \<Rightarrow> error + 'a ndarray" where
  "set_shape s a =
     (if prod_list s = length (elems a) then Inr (a\<lparr>shape := s\<rparr>) else Inl ValueError)"

text \<open>\<^verbatim>\<open>a.any()\<close> and \<^verbatim>\<open>(a == v).all()\<close>.\<close>

definition any_nonzero :: "'a::zero ndarray \<Rightarrow> bool" where
  "any_nonzero a \<longleftrightarrow> list_ex (\<lambda>x. x \<noteq> 0) (elems a)"

definition all_equal :: "'a \<Rightarrow> 'a ndarray \<Rightarrow> bool" where
  "all_equal v a \<longleftrightarrow> list_all (\<lambda>x. x = v) (elems a)"

text \<open>\<^verbatim>\<open>numpy.zeros(shape, dtype)\<close>.\<close>

definition zeros :: "nat list \<Rightarrow> 'a::zero ndarray" where
  "zeros s = \<lparr>shape = s, elems = replicate (prod_list s) 0\<rparr>"

text \<open>\<^verbatim>\<open>a.astype(dtype)\<close> and \<^verbatim>\<open>numpy.array(a, dtype)\<close> between unsigned integer dtypes.\<close>

definition astype :: "'a::len word ndarray \<Rightarrow> 'b::len word ndarray" where
  "astype a = \<lparr>shape = shape a, elems = map ucast (elems a)\<rparr>"

section \<open>Nibble codec\<close>

text \<open>
  \<^verbatim>\<open>unpackNibbleArray\<close> reads \<^verbatim>\<open>s[0], s[1], s[2]\<close> (IndexError below three axes) and assigns
  the input to the even and to the odd cells of a fresh \<^verbatim>\<open>(s0, s1, 2*s2)\<close> uint8 array, then
  masks the even cells with \<^verbatim>\<open>0xf\<close> and shifts the odd cells right by 4.  An input of more
  than three axes fits the three-axis slices only where numpy can broadcast it to them
  (shapes with axes of length 1); the model reports every such input as ValueError, and
  no property below is about one: \<^verbatim>\<open>_load\<close> sets the shape to three axes before it unpacks.
\<close>

fun unpack_cells :: "8 word list \<Rightarrow> 8 word list" where
  "unpack_cells [] = []"
| "unpack_cells (b # bs) = (b AND 0xf) # drop_bit 4 b # unpack_cells bs"

definition unpackNibbleArray :: "8 word ndarray \<Rightarrow> error + 8 word ndarray" where
  "unpackNibbleArray dataArray =
     (case shape dataArray of
        [s0, s1, s2] \<Rightarrow> Inr \<lparr>shape = [s0, s1, s2 * 2], elems = unpack_cells (elems dataArray)\<rparr>
      | s0 # s1 # s2 # _ \<Rightarrow> Inl ValueError
      | _ \<Rightarrow> Inl IndexError)"

text \<open>
  \<^verbatim>\<open>packNibbleArray\<close> copies \<^verbatim>\<open>unpackedData.reshape(16, 16, shape[2] / 2, 2)\<close>, shifts the
  cells \<^verbatim>\<open>[..., 1]\<close> left by 4 in the array's own dtype, ORs the cells \<^verbatim>\<open>[..., 0]\<close> into them
  and returns the cells \<^verbatim>\<open>[..., 1]\<close>.  The module imports true division, so \<^verbatim>\<open>shape[2] / 2\<close>
  is the float \<^verbatim>\<open>8.0\<close> for a last axis of 16, which the numpy of the time takes as 8; an
  odd last axis gives a fractional length, reported as TypeError.  The reshape raises
  ValueError unless the array has exactly \<^verbatim>\<open>16 * 16 * (shape[2] / 2) * 2\<close> elements.
\<close>

fun pack_cells :: "'a::len word list \<Rightarrow> 'a word list" where
  "pack_cells (lo # hi # rest) = (push_bit 4 hi OR lo) # pack_cells rest"
| "pack_cells _ = []"

definition packNibbleArray :: "'a::len word ndarray \<Rightarrow> error + 'a word ndarray" where
  "packNibbleArray unpackedData =
     (case shape unpackedData of
        s0 # s1 # s2 # _ \<Rightarrow>
          if odd s2 then Inl TypeError
          else if length (elems unpackedData) \<noteq> 16 * 16 * (s2 div 2) * 2 then Inl ValueError
          else Inr \<lparr>shape = [16, 16, s2 div 2], elems = pack_cells (elems unpackedData)\<rparr>
      | _ \<Rightarrow> Inl IndexError)"

section \<open>Tag trees\<close>

text \<open>
  The tree format (\<^verbatim>\<open>mceditlib.nbt\<close>) is an external library.  A tag is a tagged scalar, an
  array, a list or a compound; a compound is kept as an association list, with Python's
  mapping operations on it.  A tag constructor stores the value it is given; the wire
  width of a scalar only matters when the tree is serialised, which is not modelled.
\<close>

datatype nbt =
    TAG_Byte int
  | TAG_Int int
  | TAG_Long int
  | TAG_String string
  | TAG_Byte_Array "8 word ndarray"
  | TAG_Int_Array "32 word ndarray"
  | TAG_List "nbt list"
  | TAG_Compound "(string \<times> nbt) list"

type_synonym compound = "(string \<times> nbt) list"

text \<open>\<^verbatim>\<open>tag[key]\<close>, \<^verbatim>\<open>key in tag\<close>, \<^verbatim>\<open>tag[key] = v\<close>, \<^verbatim>\<open>tag.pop(key)\<close> and \<^verbatim>\<open>tag.pop(key, None)\<close>.\<close>

definition tag_get :: "compound \<Rightarrow> string \<Rightarrow> error + nbt" where
  "tag_get c k = (case map_of c k of None \<Rightarrow> Inl KeyError | Some v \<Rightarrow> Inr v)"

definition tag_contains :: "compound \<Rightarrow> string \<Rightarrow> bool" where
  "tag_contains c k \<longleftrightarrow> map_of c k \<noteq> None"

definition tag_set :: "compound \<Rightarrow> string \<Rightarrow> nbt \<Rightarrow> compound" where
  "tag_set c k v = AList.update k v c"

definition tag_pop :: "compound \<Rightarrow> string \<Rightarrow> error + (nbt \<times> compound)" where
  "tag_pop c k =
     (case map_of c k of None \<Rightarrow> Inl KeyError | Some v \<Rightarrow> Inr (v, AList.delete k c))"

definition tag_pop_default :: "compound \<Rightarrow> string \<Rightarrow> nbt option \<times> compound" where
  "tag_pop_default c k = (map_of c k, AList.delete k c)"

text \<open>
  \<^verbatim>\<open>tag.value\<close> where the code goes on to use it as a numpy array (\<^verbatim>\<open>astype\<close>, \<^verbatim>\<open>shape\<close>): the
  array of an array tag, converted to the dtype it is used at; the value of any other tag
  is no array (AttributeError).
\<close>

fun array_value :: "nbt \<Rightarrow> error + 'a::len word ndarray" where
  "array_value (TAG_Byte_Array a) = Inr (astype a)"
| "array_value (TAG_Int_Array a) = Inr (astype a)"
| "array_value _ = Inl AttributeError"

text \<open>\<^verbatim>\<open>tag.value\<close> where the code uses it as an integer (the section index \<^verbatim>\<open>Y\<close>).\<close>

fun int_value :: "nbt \<Rightarrow> error + int" where
  "int_value (TAG_Byte n) = Inr n"
| "int_value (TAG_Int n) = Inr n"
| "int_value (TAG_Long n) = Inr n"
| "int_value _ = Inl TypeError"

section \<open>Sections\<close>

record AnvilSection =
  Y :: int
  Blocks :: "16 word ndarray"
  Data :: "8 word ndarray"
  SkyLight :: "8 word ndarray"
  BlockLight :: "8 word ndarray"
  old_section_tag :: compound

text \<open>
  One step of the loop of \<^verbatim>\<open>_load\<close> over \<^verbatim>\<open>"Data", "SkyLight", "BlockLight"\<close>: pop the tag,
  set the shape of its array to \<^verbatim>\<open>16, 16, 8\<close>, unpack it.
\<close>

definition load_nibbles :: "compound \<Rightarrow> string \<Rightarrow> error + (8 word ndarray \<times> compound)" where
  "load_nibbles section_tag name =
     seq (tag_pop section_tag name) (\<lambda>(t, section_tag').
     seq (array_value t) (\<lambda>section_array.
     seq (set_shape [16, 16, 8] section_array) (\<lambda>section_array'.
     seq (unpackNibbleArray section_array') (\<lambda>u.
     Inr (u, section_tag')))))"

text \<open>\<^verbatim>\<open>self.Blocks |= numpy.array(add, 'uint16') << 8\<close>, both of shape 16 x 16 x 16.\<close>

definition merge_add :: "16 word ndarray \<Rightarrow> 8 word ndarray \<Rightarrow> 16 word ndarray" where
  "merge_add blocks add =
     blocks\<lparr>elems := map2 (\<lambda>b a. b OR push_bit 8 (ucast a)) (elems blocks) (elems add)\<rparr>"

definition AnvilSection_load :: "compound \<Rightarrow> error + AnvilSection" where
  "AnvilSection_load section_tag =
     seq (tag_pop section_tag ''Y'') (\<lambda>(ty, t1).
     seq (int_value ty) (\<lambda>y.
     seq (tag_pop t1 ''Blocks'') (\<lambda>(tb, t2).
     seq (array_value tb) (\<lambda>b16.
     seq (set_shape [16, 16, 16] b16) (\<lambda>blocks.
     seq (load_nibbles t2 ''Data'') (\<lambda>(data, t3).
     seq (load_nibbles t3 ''SkyLight'') (\<lambda>(skylight, t4).
     seq (load_nibbles t4 ''BlockLight'') (\<lambda>(blocklight, t5).
     let (tag, t6) = tag_pop_default t5 ''Add'' in
     seq (case tag of
            None \<Rightarrow> Inr blocks
          | Some ta \<Rightarrow>
              seq (array_value ta) (\<lambda>a.
              seq (set_shape [16, 16, 8] a) (\<lambda>a'.
              seq (unpackNibbleArray a') (\<lambda>add.
              Inr (merge_add blocks add))))) (\<lambda>blocks'.
     Inr \<lparr>Y = y, Blocks = blocks', Data = data, SkyLight = skylight,
          BlockLight = blocklight, old_section_tag = t6\<rparr>)))))))))"

definition AnvilSection_create :: AnvilSection where
  "AnvilSection_create =
     \<lparr>Y = 0, Blocks = zeros [16, 16, 16], Data = zeros [16, 16, 16],
      SkyLight = zeros [16, 16, 16], BlockLight = zeros [16, 16, 16], old_section_tag = []\<rparr>"

text \<open>
  \<^verbatim>\<open>AnvilSection(section_tag)\<close>: a missing or empty (falsy) compound creates a blank section.
\<close>

definition AnvilSection_init :: "compound option \<Rightarrow> error + AnvilSection" where
  "AnvilSection_init section_tag =
     (case section_tag of
        None \<Rightarrow> Inr AnvilSection_create
      | Some t \<Rightarrow> if t \<noteq> [] then AnvilSection_load t else Inr AnvilSection_create)"

text \<open>
  \<^verbatim>\<open>buildNBTTag\<close> writes into \<^verbatim>\<open>self.old_section_tag\<close> itself and returns that object, so the
  section afterwards holds the tag it returned: the result is the tag and the section in
  its new state.  All three packings and the packing of \<^verbatim>\<open>add\<close> come before the first write,
  so an exception leaves the section as it was.
\<close>

definition AnvilSection_buildNBTTag :: "AnvilSection \<Rightarrow> error + (compound \<times> AnvilSection)" where
  "AnvilSection_buildNBTTag self =
     (let section_tag = old_section_tag self in
      seq (packNibbleArray (Data self)) (\<lambda>data.
      seq (packNibbleArray (BlockLight self)) (\<lambda>blocklight.
      seq (packNibbleArray (SkyLight self)) (\<lambda>skylight.
      let add = (Blocks self)\<lparr>elems := map (drop_bit 8) (elems (Blocks self))\<rparr> in
      seq (if any_nonzero add
           then seq (packNibbleArray add) (\<lambda>p.
                Inr (tag_set section_tag ''Add'' (TAG_Byte_Array (astype p))))
           else Inr section_tag) (\<lambda>t1.
      let t2 = tag_set t1 ''Blocks'' (TAG_Byte_Array (astype (Blocks self)));
          t3 = tag_set t2 ''Data'' (TAG_Byte_Array data);
          t4 = tag_set t3 ''BlockLight'' (TAG_Byte_Array blocklight);
          t5 = tag_set t4 ''SkyLight'' (TAG_Byte_Array skylight);
          t6 = tag_set t5 ''Y'' (TAG_Byte (Y self))
      in Inr (t6, self\<lparr>old_section_tag := t6\<rparr>))))))"

section \<open>Chunks\<close>

text \<open>
  The class attributes \<^verbatim>\<open>minHeight\<close> and \<^verbatim>\<open>maxHeight\<close> of \<^verbatim>\<open>AnvilWorldAdapter\<close>, which a chunk reads
  through \<^verbatim>\<open>self.adapter\<close>.
\<close>

definition minHeight :: int where
  "minHeight = 0"

definition maxHeight :: int where
  "maxHeight = 256"

text \<open>
  \<^verbatim>\<open>_sections\<close> is a Python dict from section index to section.  It is kept as an association
  list with one entry per key, whose order stands for the order in which the dict is
  iterated.  The model puts a new key at the end, where CPython iterates a dict by hash
  slot; no property below depends on where a new key goes.  Entity and tile entity
  references are kept as the tags they wrap.
\<close>

record AnvilChunkData =
  cx :: int
  cz :: int
  dimName :: string
  rootTag :: compound
  chunk_dirty :: bool
  sections :: "(int \<times> AnvilSection) list"
  Entities :: "nbt list"
  TileEntities :: "nbt list"

text \<open>\<^verbatim>\<open>tag["Level"]\<close> used as a compound, and \<^verbatim>\<open>tag["Level"][key] = v\<close>.\<close>

definition level_get :: "compound \<Rightarrow> error + compound" where
  "level_get tag =
     seq (tag_get tag ''Level'') (\<lambda>l.
     case l of TAG_Compound levelTag \<Rightarrow> Inr levelTag | _ \<Rightarrow> Inl TypeError)"

definition level_set :: "compound \<Rightarrow> string \<Rightarrow> nbt \<Rightarrow> error + compound" where
  "level_set tag k v =
     seq (level_get tag) (\<lambda>levelTag.
     Inr (tag_set tag ''Level'' (TAG_Compound (tag_set levelTag k v))))"

text \<open>Iterating over a tag that holds a sequence of tags.\<close>

fun list_value :: "nbt \<Rightarrow> error + nbt list" where
  "list_value (TAG_List ts) = Inr ts"
| "list_value (TAG_Compound c) = (if c = [] then Inr [] else Inl TypeError)"
| "list_value _ = Inl TypeError"

definition AnvilChunkData_create :: "int \<Rightarrow> int \<Rightarrow> compound" where
  "AnvilChunkData_create x z =
     [(''Level'', TAG_Compound
        [(''HeightMap'', TAG_Int_Array (zeros [16, 16])),
         (''TerrainPopulated'', TAG_Byte 1),
         (''xPos'', TAG_Int x),
         (''zPos'', TAG_Int z),
         (''LastUpdate'', TAG_Long 0),
         (''Entities'', TAG_List []),
         (''TileEntities'', TAG_List [])])]"

text \<open>
  The loop of \<^verbatim>\<open>_load\<close>: \<^verbatim>\<open>y = sec["Y"].value; self._sections[y] = AnvilSection(sec)\<close>.
\<close>

fun load_sections ::
  "nbt list \<Rightarrow> (int \<times> AnvilSection) list \<Rightarrow> error + (int \<times> AnvilSection) list" where
  "load_sections [] acc = Inr acc"
| "load_sections (TAG_Compound sec # rest) acc =
     seq (tag_get sec ''Y'') (\<lambda>ty.
     seq (int_value ty) (\<lambda>y.
     seq (AnvilSection_init (Some sec)) (\<lambda>section.
     load_sections rest (AList.update y section acc))))"
| "load_sections (_ # rest) acc = Inl TypeError"

definition AnvilChunkData_load :: "compound \<Rightarrow> error + (compound \<times> (int \<times> AnvilSection) list)" where
  "AnvilChunkData_load tag =
     seq (level_get tag) (\<lambda>levelTag.
     let (secs, levelTag') = tag_pop_default levelTag ''Sections'' in
     seq (case secs of None \<Rightarrow> Inr [] | Some t \<Rightarrow> list_value t) (\<lambda>secs'.
     seq (load_sections secs' []) (\<lambda>loaded.
     Inr (tag_set tag ''Level'' (TAG_Compound levelTag'), loaded))))"

text \<open>
  \<^verbatim>\<open>AnvilChunkData(adapter, cx, cz, dimName, rootTag, create)\<close>.  Without \<^verbatim>\<open>create\<close> and
  without a root tag, \<^verbatim>\<open>_load\<close> subscripts \<^verbatim>\<open>None\<close> (TypeError).
\<close>

definition AnvilChunkData_init ::
  "int \<Rightarrow> int \<Rightarrow> string \<Rightarrow> compound option \<Rightarrow> bool \<Rightarrow> error + AnvilChunkData" where
  "AnvilChunkData_init x z dim tag create =
     seq (if create then Inr (AnvilChunkData_create x z, [])
          else case tag of None \<Rightarrow> Inl TypeError | Some t \<Rightarrow> AnvilChunkData_load t)
       (\<lambda>(root, loaded).
     seq (level_get root) (\<lambda>levelTag.
     let levelTag1 =
           (if tag_contains levelTag ''Biomes'' then levelTag
            else tag_set levelTag ''Biomes''
                   (TAG_Byte_Array \<lparr>shape = [16, 16], elems = replicate 256 (- 1)\<rparr>)) in
     seq (tag_get levelTag1 ''Entities'') (\<lambda>te.
     seq (list_value te) (\<lambda>entities.
     let levelTag2 = AList.delete ''Entities'' levelTag1 in
     seq (tag_get levelTag2 ''TileEntities'') (\<lambda>tt.
     seq (list_value tt) (\<lambda>tileEntities.
     let levelTag3 = AList.delete ''TileEntities'' levelTag2 in
     Inr \<lparr>cx = x, cz = z, dimName = dim,
          rootTag = tag_set root ''Level'' (TAG_Compound levelTag3),
          chunk_dirty = create, sections = loaded,
          Entities = entities, TileEntities = tileEntities\<rparr>))))))"

text \<open>
  The elision test of \<^verbatim>\<open>buildNBTTag\<close>:
  \<^verbatim>\<open>not section.Blocks.any() and not section.BlockLight.any() and (section.SkyLight == 15).all()\<close>.
\<close>

definition is_trivial :: "AnvilSection \<Rightarrow> bool" where
  "is_trivial section \<longleftrightarrow>
     \<not> any_nonzero (Blocks section) \<and> \<not> any_nonzero (BlockLight section)
     \<and> all_equal 15 (SkyLight section)"

text \<open>
  The loop of \<^verbatim>\<open>buildNBTTag\<close> over \<^verbatim>\<open>self._sections.iteritems()\<close>; \<^verbatim>\<open>sanitizeBlocks\<close> returns at
  once.  Each section built holds its new tag afterwards.  The model does not follow the
  chunk after an exception.
\<close>

fun build_sections ::
  "(int \<times> AnvilSection) list \<Rightarrow> error + (nbt list \<times> (int \<times> AnvilSection) list)" where
  "build_sections [] = Inr ([], [])"
| "build_sections ((k, section) # rest) =
     (if is_trivial section
      then seq (build_sections rest) (\<lambda>(tags, rest').
           Inr (tags, (k, section) # rest'))
      else seq (AnvilSection_buildNBTTag section) (\<lambda>(t, section').
           seq (build_sections rest) (\<lambda>(tags, rest').
           Inr (TAG_Compound t # tags, (k, section') # rest'))))"

text \<open>
  \<^verbatim>\<open>AnvilChunkData.buildNBTTag\<close> works on a copy of the root tag, so the chunk's own root tag
  stays as it is.
\<close>

definition AnvilChunkData_buildNBTTag :: "AnvilChunkData \<Rightarrow> error + (compound \<times> AnvilChunkData)" where
  "AnvilChunkData_buildNBTTag self =
     (let tag = rootTag self in
      seq (build_sections (sections self)) (\<lambda>(secs, sections').
      seq (level_set tag ''Sections'' (TAG_List secs)) (\<lambda>tag1.
      seq (level_set tag1 ''Entities'' (TAG_List (Entities self))) (\<lambda>tag2.
      seq (level_set tag2 ''TileEntities'' (TAG_List (TileEntities self))) (\<lambda>tag3.
      Inr (tag3, self\<lparr>sections := sections'\<rparr>))))))"

definition sectionPositions :: "AnvilChunkData \<Rightarrow> int list" where
  "sectionPositions self = map fst (sections self)"

text \<open>
  \<^verbatim>\<open>getSection\<close> returns the section or \<^verbatim>\<open>None\<close>, or raises ValueError, and may register a new
  section in the chunk: the result and the chunk afterwards.  \<^verbatim>\<open>cy << 4\<close> on a Python
  integer is \<open>push_bit 4 cy\<close>.
\<close>

definition getSection ::
  "AnvilChunkData \<Rightarrow> int \<Rightarrow> bool \<Rightarrow> (error + AnvilSection option) \<times> AnvilChunkData" where
  "getSection self cy create =
     (if push_bit 4 cy > maxHeight \<or> cy < 0 then
        (if create then (Inl ValueError, self) else (Inr None, self))
      else
        (case map_of (sections self) cy of
           Some section \<Rightarrow> (Inr (Some section), self)
         | None \<Rightarrow>
             if \<not> create then (Inr None, self)
             else let section = AnvilSection_create\<lparr>Y := cy\<rparr>
                  in (Inr (Some section),
                      self\<lparr>sections := AList.update cy section (sections self)\<rparr>)))"

section \<open>Well-formed sections and chunks\<close>

text \<open>\<^verbatim>\<open>numpy.full(shape, v)\<close>, for concrete grids.\<close>

definition uniform :: "nat list \<Rightarrow> 'a \<Rightarrow> 'a ndarray" where
  "uniform s v = \<lparr>shape = s, elems = replicate (prod_list s) v\<rparr>"

text \<open>
  The data model's invariant on a section: its four grids are 16 x 16 x 16.  The tag a
  section keeps from its last load or save may hold an \<^verbatim>\<open>Add\<close> entry; the only such entry
  the code puts there, in \<^verbatim>\<open>buildNBTTag\<close>, is a byte array of 2048 bytes.
\<close>

definition grid_ok :: "'a ndarray \<Rightarrow> bool" where
  "grid_ok a \<longleftrightarrow> shape a = [16, 16, 16] \<and> length (elems a) = 4096"

definition add_entry_ok :: "compound \<Rightarrow> bool" where
  "add_entry_ok t \<longleftrightarrow>
     (case map_of t ''Add'' of
        None \<Rightarrow> True
      | Some (TAG_Byte_Array a) \<Rightarrow> length (elems a) = 2048
      | Some _ \<Rightarrow> False)"

definition section_ok :: "AnvilSection \<Rightarrow> bool" where
  "section_ok s \<longleftrightarrow>
     grid_ok (Blocks s) \<and> grid_ok (Data s) \<and> grid_ok (SkyLight s) \<and> grid_ok (BlockLight s)
     \<and> add_entry_ok (old_section_tag s)"

text \<open>
  A chunk as the class builds it: a dict has one entry per key, \<^verbatim>\<open>_load\<close> and \<^verbatim>\<open>getSection\<close>
  register a section under its own \<^verbatim>\<open>Y\<close>, and the root tag has a \<^verbatim>\<open>Level\<close> compound.
\<close>

definition chunk_ok :: "AnvilChunkData \<Rightarrow> bool" where
  "chunk_ok c \<longleftrightarrow>
     distinct (map fst (sections c))
     \<and> list_all (\<lambda>(k, s). Y s = k \<and> section_ok s) (sections c)
     \<and> (case level_get (rootTag c) of Inl _ \<Rightarrow> False | Inr _ \<Rightarrow> True)"

text \<open>What \<^verbatim>\<open>_load\<close> leaves of a section tag: the tag without the six entries it pops.\<close>

definition remaining :: "compound \<Rightarrow> compound" where
  "remaining t = AList.delete ''Add'' (AList.delete ''BlockLight'' (AList.delete ''SkyLight''
     (AList.delete ''Data'' (AList.delete ''Blocks'' (AList.delete ''Y'' t)))))"

text \<open>An entry of the encoded list is the tag that one held section builds.\<close>

definition encodes :: "int \<times> AnvilSection \<Rightarrow> nbt \<Rightarrow> bool" where
  "encodes entry t \<longleftrightarrow>
     (case AnvilSection_buildNBTTag (snd entry) of
        Inl _ \<Rightarrow> False
      | Inr (t0, _) \<Rightarrow> t = TAG_Compound t0)"

section \<open>World metadata\<close>

definition VERSION_MCR :: int where
  "VERSION_MCR = 19132"

definition VERSION_ANVIL :: int where
  "VERSION_ANVIL = 19133"

record AnvilWorldMetadata =
  metadataTag :: compound
  dirty :: bool

text \<open>
  \<^verbatim>\<open>AnvilWorldMetadata(metadataTag)\<close> keeps the tag, takes \<^verbatim>\<open>metadataTag["Data"]\<close> as its
  \<^verbatim>\<open>rootTag\<close> (KeyError without it) and starts clean.  \<^verbatim>\<open>rootTag\<close> is that child of the tag it
  keeps, read through \<open>metadata_rootTag\<close> and written through \<open>metadata_set_rootTag\<close>.
\<close>

definition AnvilWorldMetadata_init :: "compound \<Rightarrow> error + AnvilWorldMetadata" where
  "AnvilWorldMetadata_init tag =
     seq (tag_get tag ''Data'') (\<lambda>_. Inr \<lparr>metadataTag = tag, dirty = False\<rparr>)"

definition metadata_rootTag :: "AnvilWorldMetadata \<Rightarrow> error + compound" where
  "metadata_rootTag m =
     seq (tag_get (metadataTag m) ''Data'') (\<lambda>t.
     case t of TAG_Compound c \<Rightarrow> Inr c | _ \<Rightarrow> Inl TypeError)"

definition metadata_set_rootTag :: "AnvilWorldMetadata \<Rightarrow> compound \<Rightarrow> AnvilWorldMetadata" where
  "metadata_set_rootTag m c = m\<lparr>metadataTag := tag_set (metadataTag m) ''Data'' (TAG_Compound c)\<rparr>"

text \<open>
  Modelled from the spec: the attribute descriptors of \<^verbatim>\<open>mceditlib.nbtattr\<close> are not among the
  sources.  The spec describes them as typed fields bound to keys of the tree with
  defaults, "mutated via typed accessors that mark it dirty": reading gives the value
  stored under the key, or the default; writing stores a tag of the field's type under the
  key and sets the owner's dirty flag.
\<close>

definition NBTAttr_get :: "compound \<Rightarrow> string \<Rightarrow> nbt \<Rightarrow> nbt" where
  "NBTAttr_get root name dflt = (case map_of root name of None \<Rightarrow> dflt | Some t \<Rightarrow> t)"

definition NBTAttr_set :: "AnvilWorldMetadata \<Rightarrow> string \<Rightarrow> nbt \<Rightarrow> error + AnvilWorldMetadata" where
  "NBTAttr_set m name t =
     seq (metadata_rootTag m) (\<lambda>root.
     Inr ((metadata_set_rootTag m (tag_set root name t))\<lparr>dirty := True\<rparr>))"

text \<open>\<^verbatim>\<open>version = NBTAttr('version', nbt.TAG_Int, VERSION_ANVIL)\<close>, read.\<close>

definition version :: "AnvilWorldMetadata \<Rightarrow> error + nbt" where
  "version m =
     seq (metadata_rootTag m) (\<lambda>root.
     Inr (NBTAttr_get root ''version'' (TAG_Int VERSION_ANVIL)))"

section \<open>The world folder and the external libraries\<close>

type_synonym bytes = "8 word list"

text \<open>
  The part of the disk the adapter touches itself: which paths are directories, the
  contents of the plain files, and where the operating system lets a file be opened for
  writing or a directory be made.
\<close>

record disk =
  dirs :: "string set"
  files :: "string \<rightharpoonup> bytes"
  writable :: "string \<Rightarrow> bool"
  creatable :: "string \<Rightarrow> bool"

definition path_exists :: "disk \<Rightarrow> string \<Rightarrow> bool" where
  "path_exists d p \<longleftrightarrow> p \<in> dirs d \<or> files d p \<noteq> None"

definition path_isdir :: "disk \<Rightarrow> string \<Rightarrow> bool" where
  "path_isdir d p \<longleftrightarrow> p \<in> dirs d"

definition os_mkdir :: "disk \<Rightarrow> string \<Rightarrow> error + disk" where
  "os_mkdir d p =
     (if path_exists d p \<or> \<not> creatable d p then Inl OSError
      else Inr (d\<lparr>dirs := insert p (dirs d)\<rparr>))"

text \<open>\<^verbatim>\<open>file(p, "wb")\<close> truncates the file; \<^verbatim>\<open>file(p, "rb").read()\<close>.\<close>

definition file_open_wb :: "disk \<Rightarrow> string \<Rightarrow> error + disk" where
  "file_open_wb d p =
     (if p \<in> dirs d \<or> \<not> writable d p then Inl IOError
      else Inr (d\<lparr>files := (files d)(p \<mapsto> [])\<rparr>))"

definition file_read :: "disk \<Rightarrow> string \<Rightarrow> error + bytes" where
  "file_read d p = (case files d p of None \<Rightarrow> Inl IOError | Some b \<Rightarrow> Inr b)"

text \<open>
  The versioned store (\<^verbatim>\<open>RevisionHistory\<close>), the flat folder (\<^verbatim>\<open>AnvilWorldFolder\<close>), the tree
  format's \<^verbatim>\<open>load\<close> and \<^verbatim>\<open>save\<close>, \<^verbatim>\<open>SetNBTDefaults\<close> and \<^verbatim>\<open>os.path\<close> are external.  They are
  parameters of the model: \<open>'h\<close> is the state of the store, \<open>'r\<close> a revision of it (for a
  world opened read only, the folder itself), \<open>'c\<close> the changes between two revisions.
  Every theorem below holds for every such library.
\<close>

record ('h, 'r, 'c) library =
  basename :: "string \<Rightarrow> string"
  dirname :: "string \<Rightarrow> string"
  join :: "string \<Rightarrow> string \<Rightarrow> string"
  new_AnvilWorldFolder :: "string \<Rightarrow> 'h \<times> 'r"
  new_RevisionHistory :: "string \<Rightarrow> bool option \<Rightarrow> 'h"
  getHead :: "'h \<Rightarrow> 'r"
  nodes :: "'h \<Rightarrow> 'r list"
  getRevision :: "'h \<Rightarrow> int \<Rightarrow> 'r"
  getRevisionChanges :: "'h \<Rightarrow> 'r \<Rightarrow> 'r \<Rightarrow> 'c"
  writeAllChanges :: "'h \<Rightarrow> 'r \<Rightarrow> error option \<times> 'h"
  getFilePath :: "'h \<Rightarrow> string \<Rightarrow> error + string"
  readFile :: "'h \<Rightarrow> 'r \<Rightarrow> string \<Rightarrow> error + bytes"
  writeFile :: "'h \<Rightarrow> 'r \<Rightarrow> string \<Rightarrow> bytes \<Rightarrow> error option \<times> 'h"
  containsFile :: "'h \<Rightarrow> 'r \<Rightarrow> string \<Rightarrow> bool"
  nbt_load :: "bytes \<Rightarrow> error + compound"
  nbt_save :: "compound \<Rightarrow> bytes"
  SetNBTDefaults :: "nbt \<Rightarrow> nbt"
  repr :: "string \<Rightarrow> string"
  str_of_tag :: "compound \<Rightarrow> string"

section \<open>The session lock's eight bytes\<close>

text \<open>
  \<^verbatim>\<open>struct.pack(">q", n)\<close>: the eight bytes of the two's complement of \<open>n\<close>, most significant
  first; \<^verbatim>\<open>struct.error\<close> when \<open>n\<close> is no signed 64-bit value.  \<^verbatim>\<open>struct.unpack(">q", b)\<close>:
  \<^verbatim>\<open>struct.error\<close> unless \<open>b\<close> has exactly eight bytes.
\<close>

definition struct_pack_q :: "int \<Rightarrow> error + bytes" where
  "struct_pack_q n =
     (if - (2 ^ 63) \<le> n \<and> n < 2 ^ 63
      then Inr (map (\<lambda>i. ucast (drop_bit (8 * i) (word_of_int n :: 64 word))) [7, 6, 5, 4, 3, 2, 1, 0])
      else Inl StructError)"

definition be_word :: "bytes \<Rightarrow> 64 word" where
  "be_word bs = foldl (\<lambda>acc b. push_bit 8 acc OR ucast b) 0 bs"

definition struct_unpack_q :: "bytes \<Rightarrow> error + int" where
  "struct_unpack_q b = (if length b = 8 then Inr (sint (be_word b)) else Inl StructError)"

section \<open>The adapter\<close>

record ('h, 'r) AnvilWorldAdapter =
  filename :: string
  readonly :: bool
  lockTime :: int
  revisionHistory :: 'h
  selectedRevision :: 'r
  metadata :: AnvilWorldMetadata

text \<open>
  A method that writes to the adapter or to the disk takes both and returns both, beside
  the exception it raised or the value it returned.
\<close>

type_synonym ('h, 'r) world = "('h, 'r) AnvilWorldAdapter \<times> disk"

text \<open>
  \<^verbatim>\<open>acquireSessionLock\<close>; \<open>now\<close> is \<^verbatim>\<open>int(time.time() * 1000)\<close>.  \<^verbatim>\<open>self.lockTime\<close> is set before
  the file is opened, and the file is opened (and so emptied) before the value is packed.
\<close>

definition acquireSessionLock ::
  "('h, 'r, 'c) library \<Rightarrow> int \<Rightarrow> ('h, 'r) world \<Rightarrow> error option \<times> ('h, 'r) world" where
  "acquireSessionLock lib now w =
     (let (self, d) = w in
      case getFilePath lib (revisionHistory self) ''session.lock'' of
        Inl e \<Rightarrow> (Some e, w)
      | Inr lockfile \<Rightarrow>
          let self' = self\<lparr>lockTime := now\<rparr> in
          (case file_open_wb d lockfile of
             Inl e \<Rightarrow> (Some e, (self', d))
           | Inr d' \<Rightarrow>
               (case struct_pack_q now of
                  Inl e \<Rightarrow> (Some e, (self', d'))
                | Inr b \<Rightarrow> (None, (self', d'\<lparr>files := (files d')(lockfile \<mapsto> b)\<rparr>)))))"

text \<open>\<^verbatim>\<open>checkSessionLock\<close> reads and writes nothing but the exception it may raise.\<close>

definition checkSessionLock ::
  "('h, 'r, 'c) library \<Rightarrow> ('h, 'r) world \<Rightarrow> error option" where
  "checkSessionLock lib w =
     (let (self, d) = w in
      if readonly self then Some SessionLockLost
      else case getFilePath lib (revisionHistory self) ''session.lock'' of
        Inl e \<Rightarrow> Some e
      | Inr lockfile \<Rightarrow>
          (case file_read d lockfile of
             Inl e \<Rightarrow> Some e
           | Inr b \<Rightarrow>
               let lock = (case struct_unpack_q b of Inl _ \<Rightarrow> - 1 | Inr v \<Rightarrow> v)
               in if lock \<noteq> lockTime self then Some SessionLockLost else None))"

definition saveChanges ::
  "('h, 'r, 'c) library \<Rightarrow> ('h, 'r) world \<Rightarrow> error option \<times> ('h, 'r) world" where
  "saveChanges lib w =
     (let (self, d) = w in
      if readonly self then (Some IOError, w)
      else case checkSessionLock lib w of
        Some e \<Rightarrow> (Some e, w)
      | None \<Rightarrow>
          (case writeAllChanges lib (revisionHistory self) (selectedRevision self) of
             (Some e, h') \<Rightarrow> (Some e, (self\<lparr>revisionHistory := h'\<rparr>, d))
           | (None, h') \<Rightarrow>
               (None, (self\<lparr>revisionHistory := h', selectedRevision := getHead lib h'\<rparr>, d))))"

definition syncToDisk ::
  "('h, 'r, 'c) library \<Rightarrow> ('h, 'r) AnvilWorldAdapter \<Rightarrow> error option \<times> ('h, 'r) AnvilWorldAdapter" where
  "syncToDisk lib self =
     (if dirty (metadata self) then
        (case writeFile lib (revisionHistory self) (selectedRevision self) ''level.dat''
                (nbt_save lib (metadataTag (metadata self))) of
           (Some e, h') \<Rightarrow> (Some e, self\<lparr>revisionHistory := h'\<rparr>)
         | (None, h') \<Rightarrow>
             (None, self\<lparr>revisionHistory := h', metadata := (metadata self)\<lparr>dirty := False\<rparr>\<rparr>))
      else (None, self))"

definition selectRevision ::
  "('h, 'r, 'c) library \<Rightarrow> ('h, 'r) AnvilWorldAdapter \<Rightarrow> int
     \<Rightarrow> 'c option \<times> ('h, 'r) AnvilWorldAdapter" where
  "selectRevision lib self index =
     (if index < 0 \<or> index \<ge> int (length (nodes lib (revisionHistory self))) then (None, self)
      else let newRevision = getRevision lib (revisionHistory self) index;
               changes = getRevisionChanges lib (revisionHistory self)
                           (selectedRevision self) newRevision
           in (Some changes, self\<lparr>selectedRevision := newRevision\<rparr>))"

section \<open>Opening a world\<close>

text \<open>
  \<^verbatim>\<open>_createMetadataTag\<close>; \<open>last_played\<close> is \<^verbatim>\<open>long(time.time() * 1000)\<close> and \<open>random_seed\<close> the seed
  given or drawn.  The five assignments go through the attribute descriptors.
\<close>

definition createMetadataTag ::
  "('h, 'r, 'c) library \<Rightarrow> int \<Rightarrow> int \<Rightarrow> ('h, 'r) AnvilWorldAdapter
     \<Rightarrow> error + ('h, 'r) AnvilWorldAdapter" where
  "createMetadataTag lib last_played random_seed self =
     (let tag = [(''Data'', TAG_Compound
                   [(''SpawnX'', TAG_Int 0), (''SpawnY'', TAG_Int 2), (''SpawnZ'', TAG_Int 0),
                    (''version'', TAG_Int VERSION_ANVIL)])] in
      seq (AnvilWorldMetadata_init tag) (\<lambda>m0.
      seq (NBTAttr_set m0 ''LastPlayed'' (TAG_Long last_played)) (\<lambda>m1.
      seq (NBTAttr_set m1 ''RandomSeed'' (TAG_Long random_seed)) (\<lambda>m2.
      seq (NBTAttr_set m2 ''SizeOnDisk'' (TAG_Long 0)) (\<lambda>m3.
      seq (NBTAttr_set m3 ''Time'' (TAG_Long 1)) (\<lambda>m4.
      seq (NBTAttr_set m4 ''LevelName'' (TAG_String (basename lib (filename self)))) (\<lambda>m5.
      Inr (self\<lparr>metadata := m5\<rparr>))))))))"

text \<open>
  \<^verbatim>\<open>metadataTag = nbt.load(buf=self.selectedRevision.readFile(name))\<close> followed by
  \<^verbatim>\<open>self.metadata = AnvilWorldMetadata(metadataTag)\<close>, the body of both \<^verbatim>\<open>try\<close> blocks.
\<close>

definition load_metadata ::
  "('h, 'r, 'c) library \<Rightarrow> ('h, 'r) AnvilWorldAdapter \<Rightarrow> string \<Rightarrow> error + AnvilWorldMetadata" where
  "load_metadata lib self name =
     seq (readFile lib (revisionHistory self) (selectedRevision self) name) (\<lambda>buf.
     seq (nbt_load lib buf) (\<lambda>tag.
     AnvilWorldMetadata_init tag))"

text \<open>
  What \<^verbatim>\<open>except (EnvironmentError, zlib.error)\<close> catches: \<^verbatim>\<open>IOError\<close>, \<^verbatim>\<open>OSError\<close>, the two
  subclasses of \<^verbatim>\<open>IOError\<close> this module declares, and \<^verbatim>\<open>zlib.error\<close>.
\<close>

definition caught_by_first_except :: "error \<Rightarrow> bool" where
  "caught_by_first_except e \<longleftrightarrow>
     e = IOError \<or> e = OSError \<or> e = SessionLockLost \<or> e = AnvilChunkFormatError
     \<or> e = ZlibError"

text \<open>The closing \<^verbatim>\<open>assert self.metadata.version == VERSION_ANVIL\<close>.\<close>

definition assert_version ::
  "('h, 'r) world \<Rightarrow> (error + ('h, 'r) AnvilWorldAdapter) \<times> disk" where
  "assert_version w =
     (let (self, d) = w in
      case version (metadata self) of
        Inl e \<Rightarrow> (Inl e, d)
      | Inr v \<Rightarrow> if int_value v = Inr VERSION_ANVIL then (Inr self, d)
                else (Inl AssertionError, d))"

definition init_defaults ::
  "('h, 'r, 'c) library \<Rightarrow> int \<Rightarrow> int \<Rightarrow> ('h, 'r) world
     \<Rightarrow> (error + ('h, 'r) AnvilWorldAdapter) \<times> disk" where
  "init_defaults lib last_played random_seed w =
     (let (self, d) = w in
      case createMetadataTag lib last_played random_seed self of
        Inl e \<Rightarrow> (Inl e, d)
      | Inr self' \<Rightarrow> assert_version (self', d))"

text \<open>
  \<^verbatim>\<open>AnvilWorldAdapter(filename, create, readonly, resume)\<close> on a disk \<open>d\<close>: the adapter or the
  exception, and the disk afterwards.  \<open>now\<close> is the clock reading of
  \<^verbatim>\<open>acquireSessionLock\<close>.  Until \<^verbatim>\<open>__init__\<close> assigns \<^verbatim>\<open>self.metadata\<close> the attribute does not
  exist; nothing reads it before it is assigned, and the model starts it with an empty
  tag.
\<close>

definition AnvilWorldAdapter_init ::
  "('h, 'r, 'c) library \<Rightarrow> int \<Rightarrow> int \<Rightarrow> int \<Rightarrow> disk \<Rightarrow> string \<Rightarrow> bool \<Rightarrow> bool \<Rightarrow> bool option
     \<Rightarrow> (error + ('h, 'r) AnvilWorldAdapter) \<times> disk" where
  "AnvilWorldAdapter_init lib now last_played random_seed d filename0 create ro resume =
     (if create \<and> ro then (Inl AssertionError, d)
      else
        let fname = (if basename lib filename0 = ''level.dat''
                        \<or> basename lib filename0 = ''level.dat_old''
                     then dirname lib filename0 else filename0)
        in
        case (if \<not> path_exists d fname
              then (if \<not> create then Inl IOError else os_mkdir d fname)
              else if create \<and> (\<not> path_isdir d fname
                                 \<or> path_exists d (join lib fname ''level.dat''))
              then Inl IOError
              else Inr d) of
          Inl e \<Rightarrow> (Inl e, d)
        | Inr d1 \<Rightarrow>
            if \<not> path_isdir d1 fname then (Inl IOError, d1)
            else
              let (h, sel) =
                    (if ro then new_AnvilWorldFolder lib fname
                     else let h = new_RevisionHistory lib fname resume in (h, getHead lib h));
                  self = \<lparr>filename = fname, readonly = ro, lockTime = 0,
                          revisionHistory = h, selectedRevision = sel,
                          metadata = \<lparr>metadataTag = [], dirty = False\<rparr>\<rparr>
              in
              (case (if \<not> ro then acquireSessionLock lib now (self, d1)
                     else (None, (self, d1))) of
                 (Some e, (self1, d2)) \<Rightarrow> (Inl e, d2)
               | (None, (self1, d2)) \<Rightarrow>
                   if create then
                     (case createMetadataTag lib last_played random_seed self1 of
                        Inl e \<Rightarrow> (Inl e, d2)
                      | Inr self2 \<Rightarrow>
                          (case writeFile lib (revisionHistory self2) (selectedRevision self2)
                                  ''level.dat'' (nbt_save lib (metadataTag (metadata self2))) of
                             (Some e, h') \<Rightarrow> (Inl e, d2)
                           | (None, h') \<Rightarrow> assert_version (self2\<lparr>revisionHistory := h'\<rparr>, d2)))
                   else
                     (case load_metadata lib self1 ''level.dat'' of
                        Inr m \<Rightarrow> assert_version (self1\<lparr>metadata := m\<rparr>, d2)
                      | Inl e \<Rightarrow>
                          if caught_by_first_except e then
                            (case load_metadata lib self1 ''level.dat_old'' of
                               Inr m \<Rightarrow>
                                 (case saveChanges lib (self1\<lparr>metadata := m\<rparr>, d2) of
                                    (None, w3) \<Rightarrow> assert_version w3
                                  | (Some e', w3) \<Rightarrow>
                                      init_defaults lib last_played random_seed w3)
                             | Inl e' \<Rightarrow>
                                 init_defaults lib last_played random_seed (self1, d2))
                          else (Inl e, d2))))"

section \<open>Players\<close>

text \<open>
  Python passes any object where a parameter is named: the objects that reach the player
  code are adapters, compound tags and strings.
\<close>

datatype ('h, 'r) pyobj =
    Obj_Adapter "('h, 'r) AnvilWorldAdapter"
  | Obj_Tag compound
  | Obj_Str string

text \<open>\<^verbatim>\<open>"%s" % obj\<close>; an adapter prints as its \<^verbatim>\<open>__repr__\<close>.\<close>

definition py_str :: "('h, 'r, 'c) library \<Rightarrow> ('h, 'r) pyobj \<Rightarrow> string" where
  "py_str lib obj =
     (case obj of
        Obj_Str s \<Rightarrow> s
      | Obj_Adapter a \<Rightarrow> ''AnvilWorldAdapter('' @ repr lib (filename a) @ '')''
      | Obj_Tag c \<Rightarrow> str_of_tag lib c)"

definition getPlayerTag ::
  "('h, 'r, 'c) library \<Rightarrow> ('h, 'r) AnvilWorldAdapter \<Rightarrow> ('h, 'r) pyobj \<Rightarrow> error + nbt" where
  "getPlayerTag lib self uuid =
     (if uuid = Obj_Str [] then
        seq (metadata_rootTag (metadata self)) (\<lambda>root.
        if tag_contains root ''Player'' then tag_get root ''Player''
        else Inl PlayerNotFound)
      else
        let playerFilePath = ''playerdata/'' @ py_str lib uuid @ ''.dat'' in
        if containsFile lib (revisionHistory self) (selectedRevision self) playerFilePath then
          seq (readFile lib (revisionHistory self) (selectedRevision self) playerFilePath) (\<lambda>buf.
          seq (nbt_load lib buf) (\<lambda>playerTag.
          Inr (TAG_Compound playerTag)))
        else Inl PlayerNotFound)"

text \<open>
  \<^verbatim>\<open>AnvilPlayerRef(adapter, playerUUID)\<close> calls \<^verbatim>\<open>adapter.getPlayerTag(playerUUID)\<close> on whatever
  it is given as \<^verbatim>\<open>adapter\<close>: only an adapter has that method (AttributeError otherwise).
  The reference to the adapter that the object keeps is left out of the record.
\<close>

record ('h, 'r) AnvilPlayerRef =
  playerUUID :: "('h, 'r) pyobj"
  player_rootTag :: nbt
  player_dirty :: bool

definition AnvilPlayerRef_init ::
  "('h, 'r, 'c) library \<Rightarrow> ('h, 'r) pyobj \<Rightarrow> ('h, 'r) pyobj \<Rightarrow> error + ('h, 'r) AnvilPlayerRef" where
  "AnvilPlayerRef_init lib adapter uuid =
     (case adapter of
        Obj_Adapter a \<Rightarrow>
          seq (getPlayerTag lib a uuid) (\<lambda>t.
          Inr \<lparr>playerUUID = uuid, player_rootTag = t, player_dirty = False\<rparr>)
      | _ \<Rightarrow> Inl AttributeError)"

definition getPlayer ::
  "('h, 'r, 'c) library \<Rightarrow> ('h, 'r) AnvilWorldAdapter \<Rightarrow> string \<Rightarrow> error + ('h, 'r) AnvilPlayerRef" where
  "getPlayer lib self uuid = AnvilPlayerRef_init lib (Obj_Adapter self) (Obj_Str uuid)"

definition savePlayerTag ::
  "('h, 'r, 'c) library \<Rightarrow> ('h, 'r) AnvilWorldAdapter \<Rightarrow> compound \<Rightarrow> string
     \<Rightarrow> error option \<times> ('h, 'r) AnvilWorldAdapter" where
  "savePlayerTag lib self tag uuid =
     (if uuid = [] then (None, self\<lparr>metadata := (metadata self)\<lparr>dirty := True\<rparr>\<rparr>)
      else case writeFile lib (revisionHistory self) (selectedRevision self)
                  (''playerdata/'' @ uuid @ ''.dat'') (nbt_save lib tag) of
             (e, h') \<Rightarrow> (e, self\<lparr>revisionHistory := h'\<rparr>))"

text \<open>
  The first part of \<^verbatim>\<open>createPlayer\<close>: the existence test, and for the empty identifier the
  new empty compound stored at \<^verbatim>\<open>self.metadata.rootTag["Data"]["Player"]\<close>.  A value under
  \<^verbatim>\<open>"Data"\<close> that is no compound is reported as TypeError.
\<close>

definition createPlayer_register ::
  "('h, 'r, 'c) library \<Rightarrow> ('h, 'r) AnvilWorldAdapter \<Rightarrow> string
     \<Rightarrow> error + ('h, 'r) AnvilWorldAdapter" where
  "createPlayer_register lib self uuid =
     (if uuid = [] then
        seq (metadata_rootTag (metadata self)) (\<lambda>root.
        seq (tag_get root ''Data'') (\<lambda>t.
        case t of
          TAG_Compound inner \<Rightarrow>
            if tag_contains inner ''Player'' then Inl IOError
            else Inr (self\<lparr>metadata := metadata_set_rootTag (metadata self)
                       (tag_set root ''Data''
                          (TAG_Compound (tag_set inner ''Player'' (TAG_Compound []))))\<rparr>)
        | _ \<Rightarrow> Inl TypeError))
      else if containsFile lib (revisionHistory self) (selectedRevision self)
                (''playerdata/'' @ uuid @ ''.dat'')
      then Inl ValueError
      else Inr self)"

text \<open>
  \<^verbatim>\<open>createPlayer\<close>.  After the first part it builds \<^verbatim>\<open>AnvilPlayerRef(playerTag, self)\<close>, the new
  tag in the place of the adapter and the adapter in the place of the identifier, applies
  the defaults to the reference it got, and for every identifier other than \<^verbatim>\<open>"Player"\<close>
  checks the session lock and writes \<^verbatim>\<open>playerTag\<close> to the player's file.
\<close>

definition createPlayer ::
  "('h, 'r, 'c) library \<Rightarrow> ('h, 'r) world \<Rightarrow> string
     \<Rightarrow> (error + ('h, 'r) AnvilPlayerRef) \<times> ('h, 'r) world" where
  "createPlayer lib w uuid =
     (let (self, d) = w in
      if readonly self then (Inl IOError, w)
      else
        let playerFilePath = ''playerdata/'' @ uuid @ ''.dat'' in
        case createPlayer_register lib self uuid of
          Inl e \<Rightarrow> (Inl e, w)
        | Inr self1 \<Rightarrow>
            let playerTag = [] in
            (case AnvilPlayerRef_init lib (Obj_Tag playerTag) (Obj_Adapter self1) of
               Inl e \<Rightarrow> (Inl e, (self1, d))
             | Inr player \<Rightarrow>
                 let player' = player\<lparr>player_rootTag := SetNBTDefaults lib (player_rootTag player)\<rparr> in
                 (case (if uuid \<noteq> ''Player'' then
                          (case checkSessionLock lib (self1, d) of
                             Some e \<Rightarrow> (Some e, self1)
                           | None \<Rightarrow>
                               (case writeFile lib (revisionHistory self1) (selectedRevision self1)
                                       playerFilePath (nbt_save lib playerTag) of
                                  (e, h') \<Rightarrow> (e, self1\<lparr>revisionHistory := h'\<rparr>)))
                        else (None, self1)) of
                    (Some e, self2) \<Rightarrow> (Inl e, (self2, d))
                  | (None, self2) \<Rightarrow>
                      (case getPlayer lib self2 uuid of
                         Inl e \<Rightarrow> (Inl e, (self2, d))
                       | Inr p \<Rightarrow> (Inr p, (self2, d))))))"

section \<open>A library in memory\<close>

text \<open>
  A small instance of the external libraries, to run the model on concrete worlds: the
  store is a list of named files with one revision, a file decodes to a metadata tree
  whose \<^verbatim>\<open>Time\<close> is its first byte, and an empty file fails to decompress.
\<close>

definition mem_load :: "bytes \<Rightarrow> error + compound" where
  "mem_load b =
     (case b of
        [] \<Rightarrow> Inl ZlibError
      | v # _ \<Rightarrow> Inr [(''Data'', TAG_Compound [(''version'', TAG_Int VERSION_ANVIL),
                                              (''Time'', TAG_Long (uint v))])])"

definition mem_library :: "((string \<times> bytes) list, nat, unit) library" where
  "mem_library =
     \<lparr>basename = (\<lambda>p. p), dirname = (\<lambda>p. p), join = (\<lambda>a b. a @ ''/'' @ b),
      new_AnvilWorldFolder = (\<lambda>p. ([(''level.dat_old'', [7])], 0)),
      new_RevisionHistory = (\<lambda>p resume. [(''level.dat_old'', [7])]),
      getHead = (\<lambda>h. 0),
      nodes = (\<lambda>h. [0]),
      getRevision = (\<lambda>h i. nat i),
      getRevisionChanges = (\<lambda>h a b. ()),
      writeAllChanges = (\<lambda>h r. (None, h)),
      getFilePath = (\<lambda>h name. Inr name),
      readFile = (\<lambda>h r name. case map_of h name of None \<Rightarrow> Inl IOError | Some b \<Rightarrow> Inr b),
      writeFile = (\<lambda>h r name b. (None, AList.update name b h)),
      containsFile = (\<lambda>h r name. map_of h name \<noteq> None),
      nbt_load = mem_load,
      nbt_save = (\<lambda>t. [1]),
      SetNBTDefaults = (\<lambda>t. t),
      repr = (\<lambda>s. s),
      str_of_tag = (\<lambda>t. ''TAG_Compound'')\<rparr>"

definition mem_disk :: disk where
  "mem_disk =
     \<lparr>dirs = {''world''}, files = Map.empty, writable = (\<lambda>p. True), creatable = (\<lambda>p. True)\<rparr>"

definition mem_adapter :: "((string \<times> bytes) list, nat) AnvilWorldAdapter" where
  "mem_adapter =
     \<lparr>filename = ''world'', readonly = False, lockTime = 0,
      revisionHistory = [], selectedRevision = 0,
      metadata = \<lparr>metadataTag = [(''Data'', TAG_Compound [])], dirty = False\<rparr>\<rparr>"

text \<open>A chunk holding a section of stone at index 0 and a section of lit air at index 1.\<close>

definition mem_chunk :: AnvilChunkData where
  "mem_chunk =
     \<lparr>cx = 0, cz = 0, dimName = [],
      rootTag = [(''Level'', TAG_Compound [(''xPos'', TAG_Int 0), (''zPos'', TAG_Int 0)])],
      chunk_dirty = False,
      sections =
        [(0, AnvilSection_create\<lparr>Blocks := uniform [16, 16, 16] 1\<rparr>),
         (1, AnvilSection_create\<lparr>Y := 1, SkyLight := uniform [16, 16, 16] 15\<rparr>)],
      Entities = [], TileEntities = []\<rparr>"

section \<open>Nibble codec: properties\<close>

lemma length_unpack_cells: "length (unpack_cells bs) = 2 * length bs"
  by (induction bs) simp_all

lemma length_pack_cells: "length (pack_cells us) = length us div 2"
  by (induction us rule: pack_cells.induct) simp_all

lemma nibble_join: "push_bit 4 (drop_bit 4 b) OR (b AND 0xf) = (b :: 8 word)"
proof -
  have "push_bit 4 (drop_bit 4 b) OR (b AND mask 4) = b"
    by (rule bit_word_eqI) (auto simp: bit_simps)
  then show ?thesis by (simp add: mask_eq_exp_minus_1)
qed

lemma pack_unpack_cells: "pack_cells (unpack_cells bs) = bs"
  by (induction bs) (simp_all add: nibble_join)

lemma nib_le: "take_bit 4 x = x" if "x \<le> 15" for x :: "'a::len word"
proof -
  have "unat x \<le> unat (of_nat 15 :: 'a word)" using that by (simp add: word_le_nat_alt)
  also have "\<dots> \<le> 15" by (simp only: unat_of_nat mod_less_eq_dividend)
  finally have "unat x < 2 ^ 4" by simp
  then have "take_bit 4 (unat x) = unat x" by (rule take_bit_nat_eq_self)
  then have "unat (take_bit 4 x) = unat x" by (simp only: unsigned_take_bit_eq)
  then show ?thesis by (simp only: word_unat_eq_iff)
qed

lemma nibble_low:
  fixes lo hi :: "'a::len word"
  assumes "lo \<le> 15"
  shows "(push_bit 4 hi OR lo) AND 0xf = lo"
proof -
  have l: "take_bit 4 lo = lo" using assms by (simp add: nib_le)
  have "(push_bit 4 hi OR lo) AND mask 4 = take_bit 4 lo"
    by (rule bit_word_eqI) (auto simp: bit_simps)
  then show ?thesis using l by (simp add: mask_eq_exp_minus_1)
qed

lemma nibble_high:
  fixes lo hi :: "8 word"
  assumes "lo \<le> 15" "hi \<le> 15"
  shows "drop_bit 4 (push_bit 4 hi OR lo) = hi"
proof -
  have l: "take_bit 4 lo = lo" and h: "take_bit 4 hi = hi" using assms by (simp_all add: nib_le)
  have "drop_bit 4 (push_bit 4 (take_bit 4 hi) OR take_bit 4 lo) = take_bit 4 hi"
    by (rule bit_word_eqI) (auto simp: bit_simps)
  then show ?thesis using l h by simp
qed

lemma unpack_pack_cells:
  "\<forall>x\<in>set us. x \<le> 15 \<Longrightarrow> even (length us) \<Longrightarrow> unpack_cells (pack_cells us) = us"
proof (induction us rule: pack_cells.induct)
  case (1 lo hi rest)
  have lo: "lo \<le> 15" and hi: "hi \<le> 15" using "1.prems"(1) by simp_all
  have rest: "unpack_cells (pack_cells rest) = rest" using 1 by simp
  have "unpack_cells (pack_cells (lo # hi # rest)) =
        ((push_bit 4 hi OR lo) AND 0xf) # drop_bit 4 (push_bit 4 hi OR lo)
          # unpack_cells (pack_cells rest)"
    by (simp only: pack_cells.simps unpack_cells.simps)
  also have "\<dots> = lo # hi # rest"
    by (simp only: nibble_low [OF lo] nibble_high [OF lo hi] rest)
  finally show ?case .
qed simp_all

lemma unpack_cells_replicate: "unpack_cells (replicate n 0) = replicate (2 * n) 0"
  by (induction n) simp_all

text \<open>
  Claim C1.  For every packed grid \<open>g\<close> of shape 16 x 16 x 8 and every unpacked grid \<open>u\<close> of
  shape 16 x 16 x 16 with all values in 0..15, packing the unpacked \<open>g\<close> gives \<open>g\<close> back and
  unpacking the packed \<open>u\<close> gives \<open>u\<close> back.  Both operations build their result in a fresh
  array and write nothing else: they are functions of their argument.
\<close>

theorem nibble_codec_inverse:
  fixes g u :: "8 word ndarray"
  assumes "shape g = [16, 16, 8]" and "length (elems g) = 16 * 16 * 8"
    and "shape u = [16, 16, 16]" and "length (elems u) = 16 * 16 * 16"
    and "\<forall>x\<in>set (elems u). x \<le> 15"
  shows "seq (unpackNibbleArray g) packNibbleArray = Inr g
       \<and> seq (packNibbleArray u) unpackNibbleArray = Inr u"
proof
  show "seq (unpackNibbleArray g) packNibbleArray = Inr g"
    using assms(1,2)
    by (simp add: seq_def unpackNibbleArray_def packNibbleArray_def length_unpack_cells
        pack_unpack_cells)
  have "even (length (elems u))" using assms(4) by simp
  then have "unpack_cells (pack_cells (elems u)) = elems u"
    using assms(5) by (simp add: unpack_pack_cells)
  then show "seq (packNibbleArray u) unpackNibbleArray = Inr u"
    using assms(3,4) by (simp add: seq_def unpackNibbleArray_def packNibbleArray_def)
qed

theorem nibble_codec_inverse_witness:
  "seq (unpackNibbleArray (zeros [16, 16, 8])) packNibbleArray = Inr (zeros [16, 16, 8])
 \<and> seq (packNibbleArray (zeros [16, 16, 16] :: 8 word ndarray)) unpackNibbleArray = Inr (zeros [16, 16, 16])"
  using nibble_codec_inverse [of "zeros [16, 16, 8]" "zeros [16, 16, 16]"]
  by (simp add: zeros_def)

section \<open>Section codec: properties\<close>

lemma pack_cells_replicate:
  "pack_cells (replicate (2 * n) v) = replicate n (push_bit 4 v OR v)"
  by (induction n) simp_all

lemma unpack_cells_uniform:
  "unpack_cells (replicate n b) = concat (replicate n [b AND 0xf, drop_bit 4 b])"
  by (induction n) simp_all

lemma concat_replicate_pair: "concat (replicate n [c, c]) = replicate (2 * n) c"
  by (induction n) simp_all

lemma list_ex_replicate: "list_ex P (replicate n x) \<longleftrightarrow> 0 < n \<and> P x"
  by (auto simp: list_ex_iff)

lemma packNibbleArray_grid:
  "grid_ok a \<Longrightarrow> packNibbleArray a = Inr \<lparr>shape = [16, 16, 8], elems = pack_cells (elems a)\<rparr>"
  by (simp add: grid_ok_def packNibbleArray_def)

text \<open>The tag a well-shaped section builds: the tag it kept, with six entries written.\<close>

lemma buildNBTTag_ok:
  assumes "grid_ok (Blocks s)" "grid_ok (Data s)" "grid_ok (SkyLight s)" "grid_ok (BlockLight s)"
  shows "\<exists>t. AnvilSection_buildNBTTag s = Inr (t, s\<lparr>old_section_tag := t\<rparr>)
           \<and> map_of t ''Y'' = Some (TAG_Byte (Y s))
           \<and> map_of t ''Blocks'' = Some (TAG_Byte_Array (astype (Blocks s)))
           \<and> map_of t ''Data''
               = Some (TAG_Byte_Array \<lparr>shape = [16, 16, 8], elems = pack_cells (elems (Data s))\<rparr>)
           \<and> map_of t ''SkyLight''
               = Some (TAG_Byte_Array \<lparr>shape = [16, 16, 8], elems = pack_cells (elems (SkyLight s))\<rparr>)
           \<and> map_of t ''BlockLight''
               = Some (TAG_Byte_Array \<lparr>shape = [16, 16, 8], elems = pack_cells (elems (BlockLight s))\<rparr>)
           \<and> map_of t ''Add''
               = (if list_ex (\<lambda>b. drop_bit 8 b \<noteq> 0) (elems (Blocks s))
                  then Some (TAG_Byte_Array
                         \<lparr>shape = [16, 16, 8],
                          elems = map ucast (pack_cells (map (drop_bit 8) (elems (Blocks s))))\<rparr>)
                  else map_of (old_section_tag s) ''Add'')"
proof -
  have add: "grid_ok ((Blocks s)\<lparr>elems := map (drop_bit 8) (elems (Blocks s))\<rparr>)"
    using assms(1) by (simp add: grid_ok_def)
  show ?thesis
    by (simp add: AnvilSection_buildNBTTag_def Let_def seq_def packNibbleArray_grid [OF add]
        packNibbleArray_grid [OF assms(2)] packNibbleArray_grid [OF assms(3)]
        packNibbleArray_grid [OF assms(4)] tag_set_def update_conv' any_nonzero_def
        astype_def list_ex_iff)
qed

lemma map_ucast_same: "map ucast xs = (xs :: 'a::len word list)"
  by (induction xs) simp_all

lemma array_value_bytes: "array_value (TAG_Byte_Array a) = Inr (a :: 8 word ndarray)"
  by (cases a) (simp add: astype_def map_ucast_same)

lemma load_nibbles_ok:
  assumes "map_of t name = Some (TAG_Byte_Array p)" "length (elems p) = 2048"
  shows "load_nibbles t name
         = Inr (\<lparr>shape = [16, 16, 16], elems = unpack_cells (elems p)\<rparr>, AList.delete name t)"
  using assms
  by (simp add: load_nibbles_def tag_pop_def seq_def array_value_bytes set_shape_def
      unpackNibbleArray_def del: array_value.simps)

lemma AnvilSection_load_ok:
  assumes y: "map_of t ''Y'' = Some (TAG_Byte y)"
    and b: "map_of t ''Blocks'' = Some (TAG_Byte_Array b)" "length (elems b) = 4096"
    and d: "map_of t ''Data'' = Some (TAG_Byte_Array dp)" "length (elems dp) = 2048"
    and s: "map_of t ''SkyLight'' = Some (TAG_Byte_Array sp)" "length (elems sp) = 2048"
    and l: "map_of t ''BlockLight'' = Some (TAG_Byte_Array lp)" "length (elems lp) = 2048"
    and a: "map_of t ''Add'' = None
            \<or> (\<exists>ap. map_of t ''Add'' = Some (TAG_Byte_Array ap) \<and> length (elems ap) = 2048)"
  shows "AnvilSection_load t =
         Inr \<lparr>Y = y,
              Blocks = (case map_of t ''Add'' of
                          Some (TAG_Byte_Array ap) \<Rightarrow>
                            merge_add \<lparr>shape = [16, 16, 16], elems = map ucast (elems b)\<rparr>
                              \<lparr>shape = [16, 16, 16], elems = unpack_cells (elems ap)\<rparr>
                        | _ \<Rightarrow> \<lparr>shape = [16, 16, 16], elems = map ucast (elems b)\<rparr>),
              Data = \<lparr>shape = [16, 16, 16], elems = unpack_cells (elems dp)\<rparr>,
              SkyLight = \<lparr>shape = [16, 16, 16], elems = unpack_cells (elems sp)\<rparr>,
              BlockLight = \<lparr>shape = [16, 16, 16], elems = unpack_cells (elems lp)\<rparr>,
              old_section_tag = remaining t\<rparr>"
proof -
  let ?t1 = "AList.delete ''Y'' t"
  let ?t2 = "AList.delete ''Blocks'' ?t1"
  let ?t3 = "AList.delete ''Data'' ?t2"
  let ?t4 = "AList.delete ''SkyLight'' ?t3"
  let ?t5 = "AList.delete ''BlockLight'' ?t4"
  have p1: "tag_pop t ''Y'' = Inr (TAG_Byte y, ?t1)" using y by (simp add: tag_pop_def)
  have p2: "tag_pop ?t1 ''Blocks'' = Inr (TAG_Byte_Array b, ?t2)"
    using b(1) by (simp add: tag_pop_def)
  have bv: "array_value (TAG_Byte_Array b) = Inr (\<lparr>shape = shape b, elems = map ucast (elems b)\<rparr> :: 16 word ndarray)"
    by (simp add: astype_def)
  have bs: "set_shape [16, 16, 16] (\<lparr>shape = shape b, elems = map ucast (elems b)\<rparr> :: 16 word ndarray)
            = Inr \<lparr>shape = [16, 16, 16], elems = map ucast (elems b)\<rparr>"
    using b(2) by (simp add: set_shape_def)
  have n1: "load_nibbles ?t2 ''Data''
            = Inr (\<lparr>shape = [16, 16, 16], elems = unpack_cells (elems dp)\<rparr>, ?t3)"
    using d by (intro load_nibbles_ok) simp_all
  have n2: "load_nibbles ?t3 ''SkyLight''
            = Inr (\<lparr>shape = [16, 16, 16], elems = unpack_cells (elems sp)\<rparr>, ?t4)"
    using s by (intro load_nibbles_ok) simp_all
  have n3: "load_nibbles ?t4 ''BlockLight''
            = Inr (\<lparr>shape = [16, 16, 16], elems = unpack_cells (elems lp)\<rparr>, ?t5)"
    using l by (intro load_nibbles_ok) simp_all
  have m: "map_of ?t5 ''Add'' = map_of t ''Add''" by simp
  from a show ?thesis
  proof
    assume none: "map_of t ''Add'' = None"
    show ?thesis
      by (simp add: AnvilSection_load_def seq_def p1 p2 bv bs n1 n2 n3 tag_pop_default_def m none
          remaining_def del: array_value.simps)
  next
    assume "\<exists>ap. map_of t ''Add'' = Some (TAG_Byte_Array ap) \<and> length (elems ap) = 2048"
    then obtain ap where ap: "map_of t ''Add'' = Some (TAG_Byte_Array ap)" "length (elems ap) = 2048"
      by blast
    show ?thesis
      by (simp add: AnvilSection_load_def seq_def p1 p2 bv n1 n2 n3 tag_pop_default_def m ap
          b(2) remaining_def array_value_bytes set_shape_def unpackNibbleArray_def
          del: array_value.simps)
  qed
qed

lemma grid_ok_uniform: "grid_ok (uniform [16, 16, 16] v)"
  by (simp add: grid_ok_def uniform_def)

lemma grid_ok_zeros: "grid_ok (zeros [16, 16, 16])"
  by (simp add: grid_ok_def zeros_def)

lemma pack_cells_4096: "pack_cells (replicate 4096 v) = replicate 2048 (push_bit 4 v OR v)"
  using pack_cells_replicate [of 2048 v] by simp

lemma unpack_cells_2048:
  "b AND 0xf = c \<Longrightarrow> drop_bit 4 b = c \<Longrightarrow> unpack_cells (replicate 2048 b) = replicate 4096 c"
  using concat_replicate_pair [of 2048 c] by (simp add: unpack_cells_uniform)

text \<open>
  A blank section filled with block 256 and saved, then cleared to block 0 and saved
  again: the two saves, and what loading the second tag gives.
\<close>

lemma two_saves:
  "\<exists>t1 t2. AnvilSection_buildNBTTag (AnvilSection_create\<lparr>Blocks := uniform [16, 16, 16] 256\<rparr>)
             = Inr (t1, AnvilSection_create\<lparr>Blocks := uniform [16, 16, 16] 256, old_section_tag := t1\<rparr>)
         \<and> AnvilSection_buildNBTTag
              (AnvilSection_create\<lparr>Blocks := zeros [16, 16, 16], old_section_tag := t1\<rparr>)
             = Inr (t2, AnvilSection_create\<lparr>Blocks := zeros [16, 16, 16], old_section_tag := t2\<rparr>)
         \<and> map_of t2 ''Add'' = Some (TAG_Byte_Array (uniform [16, 16, 8] 17))
         \<and> AnvilSection_load t2
             = Inr (AnvilSection_create\<lparr>Blocks := uniform [16, 16, 16] 256,
                                       old_section_tag := remaining t2\<rparr>)"
proof -
  let ?s0 = "AnvilSection_create\<lparr>Blocks := uniform [16, 16, 16] 256\<rparr>"
  have g0: "grid_ok (Blocks ?s0)" "grid_ok (Data ?s0)" "grid_ok (SkyLight ?s0)"
    "grid_ok (BlockLight ?s0)"
    by (simp_all add: AnvilSection_create_def grid_ok_uniform grid_ok_zeros)
  obtain t1 where t1: "AnvilSection_buildNBTTag ?s0 = Inr (t1, ?s0\<lparr>old_section_tag := t1\<rparr>)"
    and a1: "map_of t1 ''Add''
               = (if list_ex (\<lambda>b. drop_bit 8 b \<noteq> 0) (elems (Blocks ?s0))
                  then Some (TAG_Byte_Array
                         \<lparr>shape = [16, 16, 8],
                          elems = map ucast (pack_cells (map (drop_bit 8) (elems (Blocks ?s0))))\<rparr>)
                  else map_of (old_section_tag ?s0) ''Add'')"
    using buildNBTTag_ok [OF g0] by blast
  have a1': "map_of t1 ''Add'' = Some (TAG_Byte_Array (uniform [16, 16, 8] 17))"
    unfolding a1 by (simp add: uniform_def list_ex_replicate pack_cells_4096)
  let ?s1 = "AnvilSection_create\<lparr>Blocks := zeros [16, 16, 16], old_section_tag := t1\<rparr>"
  have g1: "grid_ok (Blocks ?s1)" "grid_ok (Data ?s1)" "grid_ok (SkyLight ?s1)"
    "grid_ok (BlockLight ?s1)"
    by (simp_all add: AnvilSection_create_def grid_ok_zeros)
  obtain t2 where t2: "AnvilSection_buildNBTTag ?s1 = Inr (t2, ?s1\<lparr>old_section_tag := t2\<rparr>)"
    and y2: "map_of t2 ''Y'' = Some (TAG_Byte (Y ?s1))"
    and b2: "map_of t2 ''Blocks'' = Some (TAG_Byte_Array (astype (Blocks ?s1)))"
    and d2: "map_of t2 ''Data''
               = Some (TAG_Byte_Array \<lparr>shape = [16, 16, 8], elems = pack_cells (elems (Data ?s1))\<rparr>)"
    and s2: "map_of t2 ''SkyLight''
               = Some (TAG_Byte_Array \<lparr>shape = [16, 16, 8], elems = pack_cells (elems (SkyLight ?s1))\<rparr>)"
    and l2: "map_of t2 ''BlockLight''
               = Some (TAG_Byte_Array \<lparr>shape = [16, 16, 8], elems = pack_cells (elems (BlockLight ?s1))\<rparr>)"
    and a2: "map_of t2 ''Add''
               = (if list_ex (\<lambda>b. drop_bit 8 b \<noteq> 0) (elems (Blocks ?s1))
                  then Some (TAG_Byte_Array
                         \<lparr>shape = [16, 16, 8],
                          elems = map ucast (pack_cells (map (drop_bit 8) (elems (Blocks ?s1))))\<rparr>)
                  else map_of (old_section_tag ?s1) ''Add'')"
    using buildNBTTag_ok [OF g1] by blast
  have a2': "map_of t2 ''Add'' = Some (TAG_Byte_Array (uniform [16, 16, 8] 17))"
    unfolding a2 by (simp add: zeros_def list_ex_replicate a1')
  have ld: "AnvilSection_load t2
            = Inr (AnvilSection_create\<lparr>Blocks := uniform [16, 16, 16] 256,
                                      old_section_tag := remaining t2\<rparr>)"
    by (subst AnvilSection_load_ok [OF y2 b2 _ d2 _ s2 _ l2])
      (simp_all add: a2' AnvilSection_create_def zeros_def uniform_def astype_def
        pack_cells_4096 unpack_cells_2048 merge_add_def)
  show ?thesis
    using t1 t2 a2' ld by (intro exI [of _ t1] exI [of _ t2]) simp
qed

lemma wide_nibble_low:
  fixes lo hi :: "16 word"
  assumes "lo \<le> 15"
  shows "(ucast (push_bit 4 hi OR lo) :: 8 word) AND 0xf = ucast lo"
proof -
  have l: "take_bit 4 lo = lo" using assms by (rule nib_le)
  have "(ucast (push_bit 4 hi OR take_bit 4 lo) :: 8 word) AND mask 4 = ucast (take_bit 4 lo)"
    by (rule bit_word_eqI) (auto simp: bit_simps)
  then show ?thesis using l by (simp add: mask_eq_exp_minus_1)
qed

lemma wide_nibble_high:
  fixes lo hi :: "16 word"
  assumes "lo \<le> 15" "hi \<le> 15"
  shows "drop_bit 4 (ucast (push_bit 4 hi OR lo) :: 8 word) = ucast hi"
proof -
  have l: "take_bit 4 lo = lo" and h: "take_bit 4 hi = hi" using assms by (simp_all add: nib_le)
  have "drop_bit 4 (ucast (push_bit 4 (take_bit 4 hi) OR take_bit 4 lo) :: 8 word)
        = ucast (take_bit 4 hi)"
    by (rule bit_word_eqI) (auto simp: bit_simps)
  then show ?thesis using l h by simp
qed

lemma unpack_pack_wide:
  fixes xs :: "16 word list"
  shows "\<forall>x\<in>set xs. x \<le> 15 \<Longrightarrow> even (length xs)
         \<Longrightarrow> unpack_cells (map ucast (pack_cells xs)) = map ucast xs"
proof (induction xs rule: pack_cells.induct)
  case (1 lo hi rest)
  have lo: "lo \<le> 15" and hi: "hi \<le> 15" using "1.prems"(1) by simp_all
  have rest: "unpack_cells (map ucast (pack_cells rest)) = map ucast rest" using 1 by simp
  have "unpack_cells (map ucast (pack_cells (lo # hi # rest))) =
        ((ucast (push_bit 4 hi OR lo) :: 8 word) AND 0xf)
          # drop_bit 4 (ucast (push_bit 4 hi OR lo) :: 8 word)
          # unpack_cells (map ucast (pack_cells rest))"
    by (simp only: pack_cells.simps unpack_cells.simps list.map)
  also have "\<dots> = map ucast (lo # hi # rest)"
    by (simp only: wide_nibble_low [OF lo] wide_nibble_high [OF lo hi] rest list.map)
  finally show ?case .
qed simp_all

lemma high_bits_nibble: "drop_bit 8 b \<le> 15" if "b \<le> 4095" for b :: "16 word"
proof -
  have "unat b \<le> 4095" using that by (simp add: word_le_nat_alt)
  then have "unat b div 2 ^ 8 \<le> 15" by simp
  then have "unat (drop_bit 8 b) \<le> unat (15 :: 16 word)"
    by (simp add: drop_bit_eq_div unat_div)
  then show ?thesis by (simp only: word_le_nat_alt)
qed

lemma high_bits_zero: "drop_bit 8 b = 0 \<longleftrightarrow> b \<le> 255" for b :: "16 word"
proof -
  have "drop_bit 8 b = 0 \<longleftrightarrow> unat (drop_bit 8 b) = 0" by (simp add: unat_eq_0)
  also have "\<dots> \<longleftrightarrow> unat b div 2 ^ 8 = 0" by (simp add: drop_bit_eq_div unat_div)
  also have "\<dots> \<longleftrightarrow> unat b \<le> 255" by auto
  also have "\<dots> \<longleftrightarrow> b \<le> 255" by (simp add: word_le_nat_alt)
  finally show ?thesis .
qed

lemma widen_join:
  "ucast (ucast b :: 8 word) OR push_bit 8 (ucast (ucast (drop_bit 8 b) :: 8 word)) = (b :: 16 word)"
  by (rule bit_word_eqI) (auto simp: bit_simps)

lemma merge_elems:
  "map2 (\<lambda>b a. b OR push_bit 8 (ucast a))
     (map (\<lambda>b. ucast (ucast b :: 8 word)) bs) (map (\<lambda>b. ucast (drop_bit 8 b) :: 8 word) bs)
   = (bs :: 16 word list)"
  by (induction bs) (simp_all add: widen_join)

lemma low_byte_only: "b \<le> 255 \<Longrightarrow> ucast (ucast b :: 8 word) = (b :: 16 word)"
proof -
  assume "b \<le> 255"
  then have "drop_bit 8 b = 0" by (simp add: high_bits_zero)
  then show ?thesis using widen_join [of b] by simp
qed

lemma grid_eq:
  "grid_ok a \<Longrightarrow> xs = elems a \<Longrightarrow> \<lparr>shape = [16, 16, 16], elems = xs\<rparr> = a"
  by (cases a) (simp add: grid_ok_def)

lemma wide_iff: "list_ex (\<lambda>b. drop_bit 8 b \<noteq> 0) bs \<longleftrightarrow> list_ex (\<lambda>b. 256 \<le> b) (bs :: 16 word list)"
proof -
  have "drop_bit 8 b \<noteq> 0 \<longleftrightarrow> 256 \<le> b" for b :: "16 word"
    using high_bits_zero [of b] by (auto simp: word_le_nat_alt)
  then show ?thesis by (simp add: list_ex_iff)
qed

lemma narrow_elems:
  "\<not> list_ex (\<lambda>b. 256 \<le> b) bs \<Longrightarrow> map (\<lambda>b. ucast (ucast b :: 8 word)) bs = (bs :: 16 word list)"
proof (induction bs)
  case Nil
  show ?case by simp
next
  case (Cons b bs)
  then have "b \<le> 255" by (simp add: word_le_nat_alt)
  then show ?case using Cons by (simp add: low_byte_only)
qed

text \<open>
  A section whose kept tag has no \<^verbatim>\<open>Add\<close> entry, or which holds a block of 256 or more, comes
  back from its own tag as it was, and its tag has an \<^verbatim>\<open>Add\<close> entry exactly when it holds a
  block of 256 or more.
\<close>

lemma section_roundtrip:
  assumes g: "grid_ok (Blocks s)" "grid_ok (Data s)" "grid_ok (SkyLight s)" "grid_ok (BlockLight s)"
    and rb: "\<forall>b\<in>set (elems (Blocks s)). b \<le> 4095"
    and rd: "\<forall>x\<in>set (elems (Data s)). x \<le> 15"
    and rs: "\<forall>x\<in>set (elems (SkyLight s)). x \<le> 15"
    and rl: "\<forall>x\<in>set (elems (BlockLight s)). x \<le> 15"
    and fresh: "map_of (old_section_tag s) ''Add'' = None
                \<or> list_ex (\<lambda>b. 256 \<le> b) (elems (Blocks s))"
  shows "\<exists>t s'. AnvilSection_buildNBTTag s = Inr (t, s\<lparr>old_section_tag := t\<rparr>)
           \<and> AnvilSection_load t = Inr s'
           \<and> Y s' = Y s \<and> Blocks s' = Blocks s \<and> Data s' = Data s
           \<and> SkyLight s' = SkyLight s \<and> BlockLight s' = BlockLight s
           \<and> (tag_contains t ''Add'' \<longleftrightarrow> list_ex (\<lambda>b. 256 \<le> b) (elems (Blocks s)))"
proof -
  let ?bs = "elems (Blocks s)"
  let ?wide = "list_ex (\<lambda>b. 256 \<le> b) ?bs"
  let ?add = "\<lparr>shape = [16, 16, 8], elems = map ucast (pack_cells (map (drop_bit 8) ?bs))\<rparr> :: 8 word ndarray"
  obtain t where t: "AnvilSection_buildNBTTag s = Inr (t, s\<lparr>old_section_tag := t\<rparr>)"
    and y: "map_of t ''Y'' = Some (TAG_Byte (Y s))"
    and b: "map_of t ''Blocks'' = Some (TAG_Byte_Array (astype (Blocks s)))"
    and d: "map_of t ''Data''
              = Some (TAG_Byte_Array \<lparr>shape = [16, 16, 8], elems = pack_cells (elems (Data s))\<rparr>)"
    and sk: "map_of t ''SkyLight''
              = Some (TAG_Byte_Array \<lparr>shape = [16, 16, 8], elems = pack_cells (elems (SkyLight s))\<rparr>)"
    and l: "map_of t ''BlockLight''
              = Some (TAG_Byte_Array \<lparr>shape = [16, 16, 8], elems = pack_cells (elems (BlockLight s))\<rparr>)"
    and a: "map_of t ''Add''
              = (if list_ex (\<lambda>b. drop_bit 8 b \<noteq> 0) ?bs then Some (TAG_Byte_Array ?add)
                 else map_of (old_section_tag s) ''Add'')"
    using buildNBTTag_ok [OF g] by blast
  have a': "map_of t ''Add'' = (if ?wide then Some (TAG_Byte_Array ?add) else None)"
    using a fresh by (auto simp add: wide_iff)
  have len: "length ?bs = 4096" "length (elems (Data s)) = 4096"
    "length (elems (SkyLight s)) = 4096" "length (elems (BlockLight s)) = 4096"
    using g by (simp_all add: grid_ok_def)
  have lb: "length (elems (astype (Blocks s) :: 8 word ndarray)) = 4096"
    using len by (simp add: astype_def)
  have lp: "length (pack_cells (elems (Data s))) = 2048"
    "length (pack_cells (elems (SkyLight s))) = 2048"
    "length (pack_cells (elems (BlockLight s))) = 2048"
    "length (elems ?add) = 2048"
    using len by (simp_all add: length_pack_cells)
  have ad: "map_of t ''Add'' = None
            \<or> (\<exists>ap. map_of t ''Add'' = Some (TAG_Byte_Array ap) \<and> length (elems ap) = 2048)"
    using a' lp(4) by (cases ?wide) simp_all
  note ld = AnvilSection_load_ok [OF y b lb d _ sk _ l _ ad, simplified ndarray.simps, OF lp(1-3)]
  have ud: "unpack_cells (pack_cells (elems (Data s))) = elems (Data s)"
    "unpack_cells (pack_cells (elems (SkyLight s))) = elems (SkyLight s)"
    "unpack_cells (pack_cells (elems (BlockLight s))) = elems (BlockLight s)"
    using rd rs rl len by (simp_all add: unpack_pack_cells)
  have hi: "\<forall>x\<in>set (map (drop_bit 8) ?bs). x \<le> 15"
    using rb by (simp add: high_bits_nibble)
  have ua: "unpack_cells (elems ?add) = map (\<lambda>b. ucast (drop_bit 8 b)) ?bs"
    using unpack_pack_wide [OF hi] len(1) by (simp add: comp_def)
  have blocks: "(case map_of t ''Add'' of
                   Some (TAG_Byte_Array ap) \<Rightarrow>
                     merge_add \<lparr>shape = [16, 16, 16], elems = map ucast (elems (astype (Blocks s) :: 8 word ndarray))\<rparr>
                       \<lparr>shape = [16, 16, 16], elems = unpack_cells (elems ap)\<rparr>
                 | _ \<Rightarrow> \<lparr>shape = [16, 16, 16], elems = map ucast (elems (astype (Blocks s) :: 8 word ndarray))\<rparr>)
                = Blocks s"
  proof (cases ?wide)
    case True
    then show ?thesis
      using a' ua merge_elems [of ?bs]
      by (simp add: merge_add_def astype_def comp_def grid_eq [OF g(1)])
  next
    case False
    then show ?thesis
      using a' narrow_elems [of ?bs]
      by (simp add: astype_def comp_def grid_eq [OF g(1)])
  qed
  have "AnvilSection_load t
        = Inr \<lparr>Y = Y s, Blocks = Blocks s, Data = Data s, SkyLight = SkyLight s,
               BlockLight = BlockLight s, old_section_tag = remaining t\<rparr>"
    unfolding ld blocks ud by (simp add: grid_eq g)
  moreover have "tag_contains t ''Add'' \<longleftrightarrow> ?wide"
    using a' by (simp add: tag_contains_def)
  ultimately show ?thesis using t by simp
qed

text \<open>
  Claim C2.  A blank section is filled with block 256 and saved, then cleared to block 0
  and saved again.  All its values are within range, yet loading the tag of the second
  save gives block 256 in every cell: that tag still carries the \<^verbatim>\<open>Add\<close> entry of the first
  save, which \<^verbatim>\<open>buildNBTTag\<close> wrote into the tag the section keeps and did not remove.
\<close>

theorem stale_Add_corrupts_Blocks:
  "\<exists>t1 t2 s'.
      AnvilSection_buildNBTTag (AnvilSection_create\<lparr>Blocks := uniform [16, 16, 16] 256\<rparr>)
        = Inr (t1, AnvilSection_create\<lparr>Blocks := uniform [16, 16, 16] 256, old_section_tag := t1\<rparr>)
    \<and> AnvilSection_buildNBTTag
          (AnvilSection_create\<lparr>Blocks := zeros [16, 16, 16], old_section_tag := t1\<rparr>)
        = Inr (t2, AnvilSection_create\<lparr>Blocks := zeros [16, 16, 16], old_section_tag := t2\<rparr>)
    \<and> AnvilSection_load t2 = Inr s'
    \<and> Blocks s' = uniform [16, 16, 16] 256
    \<and> Blocks s' \<noteq> zeros [16, 16, 16]"
proof -
  obtain t1 t2 where
    "AnvilSection_buildNBTTag (AnvilSection_create\<lparr>Blocks := uniform [16, 16, 16] 256\<rparr>)
       = Inr (t1, AnvilSection_create\<lparr>Blocks := uniform [16, 16, 16] 256, old_section_tag := t1\<rparr>)"
    "AnvilSection_buildNBTTag
       (AnvilSection_create\<lparr>Blocks := zeros [16, 16, 16], old_section_tag := t1\<rparr>)
       = Inr (t2, AnvilSection_create\<lparr>Blocks := zeros [16, 16, 16], old_section_tag := t2\<rparr>)"
    "AnvilSection_load t2
       = Inr (AnvilSection_create\<lparr>Blocks := uniform [16, 16, 16] 256,
                                 old_section_tag := remaining t2\<rparr>)"
    using two_saves by blast
  moreover have "uniform [16, 16, 16] (256 :: 16 word) \<noteq> zeros [16, 16, 16]"
    by (simp add: uniform_def zeros_def)
  ultimately show ?thesis by (intro exI [of _ t1] exI [of _ t2]) simp
qed

text \<open>
  Claim C3.  In the same run the second save is of a section with no block of 256 or more,
  and its tag has an \<^verbatim>\<open>Add\<close> entry: the one of the first save, every byte \<open>0x11\<close>.
\<close>

theorem stale_Add_entry_kept:
  "\<exists>t1 t2.
      AnvilSection_buildNBTTag (AnvilSection_create\<lparr>Blocks := uniform [16, 16, 16] 256\<rparr>)
        = Inr (t1, AnvilSection_create\<lparr>Blocks := uniform [16, 16, 16] 256, old_section_tag := t1\<rparr>)
    \<and> AnvilSection_buildNBTTag
          (AnvilSection_create\<lparr>Blocks := zeros [16, 16, 16], old_section_tag := t1\<rparr>)
        = Inr (t2, AnvilSection_create\<lparr>Blocks := zeros [16, 16, 16], old_section_tag := t2\<rparr>)
    \<and> \<not> list_ex (\<lambda>b. 256 \<le> b) (elems (zeros [16, 16, 16] :: 16 word ndarray))
    \<and> tag_contains t2 ''Add''
    \<and> map_of t2 ''Add'' = Some (TAG_Byte_Array (uniform [16, 16, 8] 17))"
proof -
  obtain t1 t2 where
    "AnvilSection_buildNBTTag (AnvilSection_create\<lparr>Blocks := uniform [16, 16, 16] 256\<rparr>)
       = Inr (t1, AnvilSection_create\<lparr>Blocks := uniform [16, 16, 16] 256, old_section_tag := t1\<rparr>)"
    "AnvilSection_buildNBTTag
       (AnvilSection_create\<lparr>Blocks := zeros [16, 16, 16], old_section_tag := t1\<rparr>)
       = Inr (t2, AnvilSection_create\<lparr>Blocks := zeros [16, 16, 16], old_section_tag := t2\<rparr>)"
    "map_of t2 ''Add'' = Some (TAG_Byte_Array (uniform [16, 16, 8] 17))"
    using two_saves by blast
  moreover have "\<not> list_ex (\<lambda>b. 256 \<le> b) (elems (zeros [16, 16, 16] :: 16 word ndarray))"
    by (simp add: zeros_def list_ex_replicate)
  ultimately show ?thesis
    by (intro exI [of _ t1] exI [of _ t2]) (simp add: tag_contains_def)
qed

section \<open>Chunks: properties\<close>

lemma built_tag_loads:
  assumes "section_ok s"
  shows "\<exists>t s'. AnvilSection_buildNBTTag s = Inr (t, s\<lparr>old_section_tag := t\<rparr>)
            \<and> tag_get t ''Y'' = Inr (TAG_Byte (Y s))
            \<and> AnvilSection_init (Some t) = Inr s'"
proof -
  let ?bs = "elems (Blocks s)"
  let ?add = "\<lparr>shape = [16, 16, 8], elems = map ucast (pack_cells (map (drop_bit 8) ?bs))\<rparr> :: 8 word ndarray"
  have g: "grid_ok (Blocks s)" "grid_ok (Data s)" "grid_ok (SkyLight s)" "grid_ok (BlockLight s)"
    and ao: "add_entry_ok (old_section_tag s)"
    using assms by (simp_all add: section_ok_def)
  obtain t where t: "AnvilSection_buildNBTTag s = Inr (t, s\<lparr>old_section_tag := t\<rparr>)"
    and y: "map_of t ''Y'' = Some (TAG_Byte (Y s))"
    and b: "map_of t ''Blocks'' = Some (TAG_Byte_Array (astype (Blocks s)))"
    and d: "map_of t ''Data''
              = Some (TAG_Byte_Array \<lparr>shape = [16, 16, 8], elems = pack_cells (elems (Data s))\<rparr>)"
    and sk: "map_of t ''SkyLight''
              = Some (TAG_Byte_Array \<lparr>shape = [16, 16, 8], elems = pack_cells (elems (SkyLight s))\<rparr>)"
    and l: "map_of t ''BlockLight''
              = Some (TAG_Byte_Array \<lparr>shape = [16, 16, 8], elems = pack_cells (elems (BlockLight s))\<rparr>)"
    and a: "map_of t ''Add''
              = (if list_ex (\<lambda>b. drop_bit 8 b \<noteq> 0) ?bs then Some (TAG_Byte_Array ?add)
                 else map_of (old_section_tag s) ''Add'')"
    using buildNBTTag_ok [OF g] by blast
  have len: "length ?bs = 4096" "length (elems (Data s)) = 4096"
    "length (elems (SkyLight s)) = 4096" "length (elems (BlockLight s)) = 4096"
    using g by (simp_all add: grid_ok_def)
  have lb: "length (elems (astype (Blocks s) :: 8 word ndarray)) = 4096"
    using len by (simp add: astype_def)
  have lp: "length (pack_cells (elems (Data s))) = 2048"
    "length (pack_cells (elems (SkyLight s))) = 2048"
    "length (pack_cells (elems (BlockLight s))) = 2048"
    "length (elems ?add) = 2048"
    using len by (simp_all add: length_pack_cells)
  have old: "map_of (old_section_tag s) ''Add'' = None
            \<or> (\<exists>ap. map_of (old_section_tag s) ''Add'' = Some (TAG_Byte_Array ap)
                      \<and> length (elems ap) = 2048)"
    using ao by (auto simp: add_entry_ok_def split: option.splits nbt.splits)
  have ad: "map_of t ''Add'' = None
            \<or> (\<exists>ap. map_of t ''Add'' = Some (TAG_Byte_Array ap) \<and> length (elems ap) = 2048)"
    using a lp(4) old by (cases "list_ex (\<lambda>b. drop_bit 8 b \<noteq> 0) ?bs") simp_all
  note ld = AnvilSection_load_ok [OF y b lb d _ sk _ l _ ad, simplified ndarray.simps, OF lp(1-3)]
  have ne: "t \<noteq> []" using y by auto
  show ?thesis
    using t y ne ld by (simp add: tag_get_def AnvilSection_init_def)
qed

lemma build_sections_ok:
  "list_all (\<lambda>(k, s). Y s = k \<and> section_ok s) secs
   \<Longrightarrow> \<exists>tags secs'. build_sections secs = Inr (tags, secs')
         \<and> list_all2 encodes (filter (\<lambda>(k, s). \<not> is_trivial s) secs) tags"
proof (induction secs)
  case Nil
  show ?case by simp
next
  case (Cons p secs)
  obtain k s where p: "p = (k, s)" by (cases p)
  from Cons.prems have ok: "section_ok s"
    and rest: "list_all (\<lambda>(k, s). Y s = k \<and> section_ok s) secs"
    by (simp_all add: p)
  from Cons.IH [OF rest] obtain tags secs' where
    r: "build_sections secs = Inr (tags, secs')"
    "list_all2 encodes (filter (\<lambda>(k, s). \<not> is_trivial s) secs) tags"
    by blast
  show ?case
  proof (cases "is_trivial s")
    case True
    then show ?thesis using r by (simp add: p seq_def)
  next
    case False
    obtain t where t: "AnvilSection_buildNBTTag s = Inr (t, s\<lparr>old_section_tag := t\<rparr>)"
      using built_tag_loads [OF ok] by blast
    then have "encodes (k, s) (TAG_Compound t)" by (simp add: encodes_def)
    then show ?thesis using False r t by (simp add: p seq_def)
  qed
qed

lemma load_sections_ok:
  "list_all2 encodes ps tags
   \<Longrightarrow> list_all (\<lambda>(k, s). Y s = k \<and> section_ok s) ps
   \<Longrightarrow> \<exists>loaded. load_sections tags acc = Inr loaded
         \<and> fst ` set loaded = fst ` set acc \<union> fst ` set ps"
proof (induction ps tags arbitrary: acc rule: list_all2_induct)
  case Nil
  show ?case by simp
next
  case (Cons p ps t tags)
  obtain k s where p: "p = (k, s)" by (cases p)
  from Cons.prems have ok: "section_ok s" and yk: "Y s = k"
    and rest: "list_all (\<lambda>(k, s). Y s = k \<and> section_ok s) ps"
    by (simp_all add: p)
  obtain t0 s' where t0: "AnvilSection_buildNBTTag s = Inr (t0, s\<lparr>old_section_tag := t0\<rparr>)"
    and y: "tag_get t0 ''Y'' = Inr (TAG_Byte (Y s))"
    and ld: "AnvilSection_init (Some t0) = Inr s'"
    using built_tag_loads [OF ok] by blast
  have t: "t = TAG_Compound t0" using Cons.hyps(1) t0 by (simp add: encodes_def p)
  from Cons.IH [OF rest, of "AList.update k s' acc"] obtain loaded where
    l: "load_sections tags (AList.update k s' acc) = Inr loaded"
    "fst ` set loaded = fst ` set (AList.update k s' acc) \<union> fst ` set ps"
    by blast
  have "load_sections (t # tags) acc = Inr loaded"
    using y ld l(1) yk by (simp add: t seq_def)
  moreover have "fst ` set loaded = fst ` set acc \<union> fst ` set (p # ps)"
    using l(2) by (auto simp: dom_update p)
  ultimately show ?case by blast
qed

lemma level_set_ok:
  "level_get tag = Inr lv
   \<Longrightarrow> level_set tag k v = Inr (tag_set tag ''Level'' (TAG_Compound (tag_set lv k v)))"
  by (simp add: level_set_def seq_def)

lemma level_get_set: "level_get (tag_set tag ''Level'' (TAG_Compound lv)) = Inr lv"
  by (simp add: level_get_def tag_get_def tag_set_def update_conv' seq_def)

lemma chunk_build_ok:
  assumes lv: "level_get (rootTag self) = Inr lv"
    and bs: "build_sections (sections self) = Inr (tags, secs')"
  shows "\<exists>tag lv'. AnvilChunkData_buildNBTTag self = Inr (tag, self\<lparr>sections := secs'\<rparr>)
           \<and> level_get tag = Inr lv'
           \<and> map_of lv' ''Sections'' = Some (TAG_List tags)
           \<and> map_of lv' ''Entities'' = Some (TAG_List (Entities self))
           \<and> map_of lv' ''TileEntities'' = Some (TAG_List (TileEntities self))"
proof -
  let ?lv1 = "tag_set lv ''Sections'' (TAG_List tags)"
  let ?t1 = "tag_set (rootTag self) ''Level'' (TAG_Compound ?lv1)"
  let ?lv2 = "tag_set ?lv1 ''Entities'' (TAG_List (Entities self))"
  let ?t2 = "tag_set ?t1 ''Level'' (TAG_Compound ?lv2)"
  let ?lv3 = "tag_set ?lv2 ''TileEntities'' (TAG_List (TileEntities self))"
  let ?t3 = "tag_set ?t2 ''Level'' (TAG_Compound ?lv3)"
  have s1: "level_set (rootTag self) ''Sections'' (TAG_List tags) = Inr ?t1"
    by (rule level_set_ok [OF lv])
  have s2: "level_set ?t1 ''Entities'' (TAG_List (Entities self)) = Inr ?t2"
    by (rule level_set_ok [OF level_get_set])
  have s3: "level_set ?t2 ''TileEntities'' (TAG_List (TileEntities self)) = Inr ?t3"
    by (rule level_set_ok [OF level_get_set])
  have b: "AnvilChunkData_buildNBTTag self = Inr (?t3, self\<lparr>sections := secs'\<rparr>)"
    by (simp add: AnvilChunkData_buildNBTTag_def Let_def seq_def bs s1 s2 s3)
  have m: "map_of ?lv3 ''Sections'' = Some (TAG_List tags)"
    "map_of ?lv3 ''Entities'' = Some (TAG_List (Entities self))"
    "map_of ?lv3 ''TileEntities'' = Some (TAG_List (TileEntities self))"
    by (simp_all add: tag_set_def update_conv')
  show ?thesis using b level_get_set [of ?t2 ?lv3] m by blast
qed

lemma chunk_init_ok:
  assumes lv: "level_get tag = Inr lv"
    and s: "map_of lv ''Sections'' = Some (TAG_List tags)"
    and e: "map_of lv ''Entities'' = Some (TAG_List ents)"
    and t: "map_of lv ''TileEntities'' = Some (TAG_List tes)"
    and l: "load_sections tags [] = Inr loaded"
  shows "\<exists>c. AnvilChunkData_init x z dim (Some tag) False = Inr c \<and> sections c = loaded"
proof -
  let ?lv' = "AList.delete ''Sections'' lv"
  let ?root = "tag_set tag ''Level'' (TAG_Compound ?lv')"
  let ?biomes = "TAG_Byte_Array \<lparr>shape = [16, 16], elems = replicate 256 (- 1)\<rparr>"
  have ld: "AnvilChunkData_load tag = Inr (?root, loaded)"
    using lv s l by (simp add: AnvilChunkData_load_def tag_pop_default_def seq_def)
  have g: "level_get ?root = Inr ?lv'" by (rule level_get_set)
  have e0: "tag_get ?lv' ''Entities'' = Inr (TAG_List ents)"
    "tag_get (AList.delete ''Entities'' ?lv') ''TileEntities'' = Inr (TAG_List tes)"
    using e t by (simp_all add: tag_get_def)
  have e1: "tag_get (tag_set ?lv' ''Biomes'' ?biomes) ''Entities'' = Inr (TAG_List ents)"
    "tag_get (AList.delete ''Entities'' (tag_set ?lv' ''Biomes'' ?biomes)) ''TileEntities''
       = Inr (TAG_List tes)"
    using e t by (simp_all add: tag_get_def tag_set_def update_conv')
  show ?thesis
  proof (cases "tag_contains ?lv' ''Biomes''")
    case True
    then show ?thesis
      by (simp add: AnvilChunkData_init_def ld g seq_def Let_def e0)
  next
    case False
    then show ?thesis
      by (simp add: AnvilChunkData_init_def ld g seq_def Let_def e1)
  qed
qed

text \<open>
  Claim C4.  For a well-formed chunk \<^verbatim>\<open>buildNBTTag\<close> returns a tag whose \<^verbatim>\<open>Sections\<close> list holds, in
  the order of the held sections, the encoding of each held section that is not trivial
  (all-zero Blocks, all-zero BlockLight, SkyLight 15 everywhere) and nothing else.  A chunk
  loaded from that tag holds sections exactly at the indices of those sections, and none
  at the index of a trivial one.
\<close>

theorem chunk_elides_trivial_sections:
  assumes "chunk_ok self"
  shows "\<exists>tag self' ts c.
      AnvilChunkData_buildNBTTag self = Inr (tag, self')
    \<and> seq (level_get tag) (\<lambda>lv. tag_get lv ''Sections'') = Inr (TAG_List ts)
    \<and> list_all2 encodes (filter (\<lambda>(k, s). \<not> is_trivial s) (sections self)) ts
    \<and> AnvilChunkData_init (cx self) (cz self) (dimName self) (Some tag) False = Inr c
    \<and> set (sectionPositions c) = fst ` set (filter (\<lambda>(k, s). \<not> is_trivial s) (sections self))
    \<and> (\<forall>k s. (k, s) \<in> set (sections self) \<and> is_trivial s \<longrightarrow> map_of (sections c) k = None)"
proof -
  let ?keep = "filter (\<lambda>(k, s). \<not> is_trivial s) (sections self)"
  have dist: "distinct (map fst (sections self))"
    and ok: "list_all (\<lambda>(k, s). Y s = k \<and> section_ok s) (sections self)"
    using assms by (simp_all add: chunk_ok_def)
  obtain lv where lv: "level_get (rootTag self) = Inr lv"
    using assms by (auto simp: chunk_ok_def split: sum.splits)
  obtain ts secs' where bs: "build_sections (sections self) = Inr (ts, secs')"
    and enc: "list_all2 encodes ?keep ts"
    using build_sections_ok [OF ok] by blast
  obtain tag lv' where b: "AnvilChunkData_buildNBTTag self = Inr (tag, self\<lparr>sections := secs'\<rparr>)"
    and g: "level_get tag = Inr lv'"
    and m: "map_of lv' ''Sections'' = Some (TAG_List ts)"
    "map_of lv' ''Entities'' = Some (TAG_List (Entities self))"
    "map_of lv' ''TileEntities'' = Some (TAG_List (TileEntities self))"
    using chunk_build_ok [OF lv bs] by blast
  have ok': "list_all (\<lambda>(k, s). Y s = k \<and> section_ok s) ?keep"
    using ok by (simp add: list_all_iff)
  obtain loaded where l: "load_sections ts [] = Inr loaded"
    and keys: "fst ` set loaded = fst ` set ?keep"
    using load_sections_ok [OF enc ok', of "[]"] by auto
  obtain c where c: "AnvilChunkData_init (cx self) (cz self) (dimName self) (Some tag) False = Inr c"
    and sc: "sections c = loaded"
    using chunk_init_ok [OF g m l] by blast
  have pos: "set (sectionPositions c) = fst ` set ?keep"
    using keys by (simp add: sectionPositions_def sc)
  have gone: "map_of (sections c) k = None" if "(k, s) \<in> set (sections self)" "is_trivial s" for k s
  proof -
    have "k \<notin> fst ` set ?keep"
    proof
      assume "k \<in> fst ` set ?keep"
      then obtain s' where s': "(k, s') \<in> set (sections self)" "\<not> is_trivial s'" by auto
      have "s' = s" using dist s'(1) that(1) by (metis eq_key_imp_eq_value)
      then show False using s'(2) that(2) by simp
    qed
    then show ?thesis by (simp add: sc keys map_of_eq_None_iff)
  qed
  have secs: "seq (level_get tag) (\<lambda>lv. tag_get lv ''Sections'') = Inr (TAG_List ts)"
    using g m(1) by (simp add: seq_def tag_get_def)
  show ?thesis using b secs enc c pos gone by blast
qed

theorem chunk_elides_trivial_sections_witness:
  "\<exists>tag self' c.
      AnvilChunkData_buildNBTTag mem_chunk = Inr (tag, self')
    \<and> AnvilChunkData_init 0 0 [] (Some tag) False = Inr c
    \<and> set (sectionPositions c) = {0}
    \<and> map_of (sections c) 1 = None"
proof -
  let ?stone = "AnvilSection_create\<lparr>Blocks := uniform [16, 16, 16] 1\<rparr>"
  let ?air = "AnvilSection_create\<lparr>Y := 1, SkyLight := uniform [16, 16, 16] 15\<rparr>"
  have ok: "chunk_ok mem_chunk"
    by (simp add: chunk_ok_def mem_chunk_def section_ok_def grid_ok_def add_entry_ok_def
        AnvilSection_create_def zeros_def uniform_def level_get_def tag_get_def seq_def)
  have triv: "\<not> is_trivial ?stone" "is_trivial ?air"
    by (simp_all add: is_trivial_def any_nonzero_def all_equal_def AnvilSection_create_def
        zeros_def uniform_def list_ex_replicate list_all_iff)
  have keep: "filter (\<lambda>(k, s). \<not> is_trivial s) (sections mem_chunk) = [(0, ?stone)]"
    using triv by (simp add: mem_chunk_def)
  have held: "(1, ?air) \<in> set (sections mem_chunk)" by (simp add: mem_chunk_def)
  from chunk_elides_trivial_sections [OF ok] obtain tag self' c where
    r: "AnvilChunkData_buildNBTTag mem_chunk = Inr (tag, self')"
    "AnvilChunkData_init (cx mem_chunk) (cz mem_chunk) (dimName mem_chunk) (Some tag) False = Inr c"
    "set (sectionPositions c)
       = fst ` set (filter (\<lambda>(k, s). \<not> is_trivial s) (sections mem_chunk))"
    "\<forall>k s. (k, s) \<in> set (sections mem_chunk) \<and> is_trivial s \<longrightarrow> map_of (sections c) k = None"
    by blast
  have "map_of (sections c) 1 = None" using r(4) held triv(2) by blast
  moreover have "set (sectionPositions c) = {0}" using r(3) by (simp add: keep)
  moreover have "AnvilChunkData_init 0 0 [] (Some tag) False = Inr c"
    using r(2) by (simp add: mem_chunk_def)
  ultimately show ?thesis using r(1) by blast
qed

lemma list_all_update:
  "P (k, v) \<Longrightarrow> list_all P al \<Longrightarrow> list_all P (AList.update k v al)"
  by (induction al) auto

text \<open>\<^verbatim>\<open>getSection\<close> keeps a chunk well formed.\<close>

lemma getSection_keeps_ok:
  assumes "chunk_ok c"
  shows "chunk_ok (snd (getSection c cy create))"
proof -
  have new: "section_ok (AnvilSection_create\<lparr>Y := cy\<rparr>)"
    by (simp add: section_ok_def grid_ok_def add_entry_ok_def AnvilSection_create_def zeros_def)
  have "chunk_ok (c\<lparr>sections := AList.update cy (AnvilSection_create\<lparr>Y := cy\<rparr>) (sections c)\<rparr>)"
    using assms new by (simp add: chunk_ok_def distinct_update list_all_update)
  then show ?thesis
    using assms by (simp add: getSection_def Let_def split: option.splits)
qed

section \<open>Revisions: properties\<close>

text \<open>
  Claim C9.  For every index that is negative, or not below the number of revisions,
  \<^verbatim>\<open>selectRevision\<close> returns \<^verbatim>\<open>None\<close> and leaves the adapter, and so the selected revision, as
  it was.
\<close>

theorem selectRevision_out_of_range:
  "index < 0 \<or> index \<ge> int (length (nodes lib (revisionHistory self)))
   \<Longrightarrow> selectRevision lib self index = (None, self)"
  by (simp add: selectRevision_def)

theorem selectRevision_out_of_range_witness:
  "selectRevision mem_library mem_adapter (- 1) = (None, mem_adapter)
   \<and> selectRevision mem_library mem_adapter 1 = (None, mem_adapter)"
  using selectRevision_out_of_range [of "- 1" mem_library mem_adapter]
    selectRevision_out_of_range [of 1 mem_library mem_adapter]
  by (simp add: mem_library_def mem_adapter_def)

section \<open>Session lock: properties\<close>

lemma sint_word_of_int_64:
  "- (2 ^ 63) \<le> n \<Longrightarrow> n < 2 ^ 63 \<Longrightarrow> sint (word_of_int n :: 64 word) = n"
  by (simp add: sint_sbintrunc' signed_take_bit_int_eq_self)

lemma byte_step:
  "push_bit (8 * k) (ucast (ucast (drop_bit (8 * k) w) :: 8 word)) OR take_bit (8 * k) w
     = take_bit (8 * Suc k) (w :: 64 word)"
  by (rule bit_word_eqI) (auto simp: bit_simps)

lemma be_word_acc:
  "foldl (\<lambda>acc b. push_bit 8 acc OR ucast b) a
     (map (\<lambda>i. ucast (drop_bit (8 * i) w) :: 8 word) (rev [0..<k]))
   = push_bit (8 * k) a OR take_bit (8 * k) (w :: 64 word)"
proof (induction k arbitrary: a)
  case 0
  show ?case by simp
next
  case (Suc k)
  have "push_bit (8 * k) (push_bit 8 a OR ucast (ucast (drop_bit (8 * k) w) :: 8 word))
          OR take_bit (8 * k) w
        = push_bit (8 * Suc k) a
          OR (push_bit (8 * k) (ucast (ucast (drop_bit (8 * k) w) :: 8 word)) OR take_bit (8 * k) w)"
    by (simp add: ac_simps flip: push_bit_add)
  then show ?case using Suc by (simp add: byte_step)
qed

lemma rev_upt_8: "rev [0..<8] = [7, 6, 5, 4, 3, 2, 1, 0::nat]"
  by (simp add: eval_nat_numeral)

lemma be_word_bytes:
  "be_word (map (\<lambda>i. ucast (drop_bit (8 * i) w)) [7, 6, 5, 4, 3, 2, 1, 0]) = (w :: 64 word)"
proof -
  have "be_word (map (\<lambda>i. ucast (drop_bit (8 * i) w)) [7, 6, 5, 4, 3, 2, 1, 0])
        = foldl (\<lambda>acc b. push_bit 8 acc OR ucast b) 0
            (map (\<lambda>i. ucast (drop_bit (8 * i) w) :: 8 word) (rev [0..<8]))"
    by (simp only: be_word_def rev_upt_8)
  also have "\<dots> = push_bit (8 * 8) 0 OR take_bit (8 * 8) w"
    by (rule be_word_acc)
  also have "\<dots> = w"
    by (simp add: take_bit_word_eq_self)
  finally show ?thesis .
qed

text \<open>Unpacking what was packed gives the value back.\<close>

lemma struct_unpack_pack:
  "struct_pack_q n = Inr b \<Longrightarrow> struct_unpack_q b = Inr n"
proof -
  assume p: "struct_pack_q n = Inr b"
  then have r: "- (2 ^ 63) \<le> n" "n < 2 ^ 63"
    and b: "b = map (\<lambda>i. ucast (drop_bit (8 * i) (word_of_int n :: 64 word))) [7, 6, 5, 4, 3, 2, 1, 0]"
    by (auto simp: struct_pack_q_def split: if_splits)
  have "length b = 8" by (simp only: b length_map) simp
  moreover have "be_word b = word_of_int n" unfolding b by (rule be_word_bytes)
  ultimately show ?thesis
    by (simp add: struct_unpack_q_def sint_word_of_int_64 [OF r])
qed

lemma struct_pack_length: "struct_pack_q n = Inr b \<Longrightarrow> length b = 8"
  by (auto simp: struct_pack_q_def split: if_splits)

lemma struct_pack_in_range:
  "- (2 ^ 63) \<le> n \<Longrightarrow> n < 2 ^ 63 \<Longrightarrow> \<exists>b. struct_pack_q n = Inr b"
  by (simp add: struct_pack_q_def)

lemma acquireSessionLock_ok:
  assumes "getFilePath lib (revisionHistory self) ''session.lock'' = Inr lockfile"
    and "lockfile \<notin> dirs d" and "writable d lockfile"
    and "struct_pack_q now = Inr b"
  shows "acquireSessionLock lib now (self, d)
         = (None, (self\<lparr>lockTime := now\<rparr>, d\<lparr>files := (files d)(lockfile \<mapsto> b)\<rparr>))"
  using assms by (simp add: acquireSessionLock_def file_open_wb_def)

lemma checkSessionLock_packed:
  assumes "\<not> readonly self"
    and "getFilePath lib (revisionHistory self) ''session.lock'' = Inr lockfile"
    and "files d lockfile = Some b" and "struct_pack_q t = Inr b"
  shows "checkSessionLock lib (self, d) = (if t = lockTime self then None else Some SessionLockLost)"
  using assms by (simp add: checkSessionLock_def file_read_def struct_unpack_pack)

text \<open>A lock time taken from a clock that counts from the epoch is never negative.\<close>

lemma acquireSessionLock_lockTime:
  "0 \<le> now \<Longrightarrow> 0 \<le> lockTime self
   \<Longrightarrow> 0 \<le> lockTime (fst (snd (acquireSessionLock lib now (self, d))))"
  by (auto simp: acquireSessionLock_def Let_def split: sum.splits)

text \<open>
  Claim C5.  On a writable adapter whose lock file can be written, \<^verbatim>\<open>acquireSessionLock\<close> at
  a clock reading \<open>now\<close> (a signed 64-bit number of milliseconds) returns normally and
  \<^verbatim>\<open>checkSessionLock\<close> then raises nothing.  Once the lock file holds the eight bytes of any
  other timestamp \<open>t\<close>, \<^verbatim>\<open>checkSessionLock\<close> raises \<^verbatim>\<open>SessionLockLost\<close>, and \<^verbatim>\<open>saveChanges\<close> raises
  it too and leaves the adapter, the store and the disk as they were: nothing is written.
\<close>

theorem session_lock_detects_rewrite:
  assumes wr: "\<not> readonly self"
    and path: "getFilePath lib (revisionHistory self) ''session.lock'' = Inr lockfile"
    and lf: "lockfile \<notin> dirs d" "writable d lockfile"
    and now: "- (2 ^ 63) \<le> now" "now < 2 ^ 63"
    and acq: "acquireSessionLock lib now (self, d) = (r, (self', d'))"
    and t: "struct_pack_q t = Inr b" "t \<noteq> now"
  shows "r = None
       \<and> checkSessionLock lib (self', d') = None
       \<and> checkSessionLock lib (self', d'\<lparr>files := (files d')(lockfile \<mapsto> b)\<rparr>) = Some SessionLockLost
       \<and> saveChanges lib (self', d'\<lparr>files := (files d')(lockfile \<mapsto> b)\<rparr>)
           = (Some SessionLockLost, (self', d'\<lparr>files := (files d')(lockfile \<mapsto> b)\<rparr>))"
proof -
  obtain b0 where b0: "struct_pack_q now = Inr b0"
    using struct_pack_in_range [OF now] by blast
  have a: "r = None" "self' = self\<lparr>lockTime := now\<rparr>" "d' = d\<lparr>files := (files d)(lockfile \<mapsto> b0)\<rparr>"
    using acq acquireSessionLock_ok [OF path lf b0] by simp_all
  have wr': "\<not> readonly self'"
    and path': "getFilePath lib (revisionHistory self') ''session.lock'' = Inr lockfile"
    using wr path a by simp_all
  have c1: "checkSessionLock lib (self', d') = None"
    using checkSessionLock_packed [OF wr' path' _ b0, of d'] a by simp
  have c2: "checkSessionLock lib (self', d'\<lparr>files := (files d')(lockfile \<mapsto> b)\<rparr>) = Some SessionLockLost"
    using checkSessionLock_packed [OF wr' path' _ t(1), of "d'\<lparr>files := (files d')(lockfile \<mapsto> b)\<rparr>"] a t(2)
    by simp
  have c3: "saveChanges lib (self', d'\<lparr>files := (files d')(lockfile \<mapsto> b)\<rparr>)
           = (Some SessionLockLost, (self', d'\<lparr>files := (files d')(lockfile \<mapsto> b)\<rparr>))"
    using wr' c2 by (simp add: saveChanges_def)
  show ?thesis using a(1) c1 c2 c3 by simp
qed

theorem session_lock_detects_rewrite_witness:
  "checkSessionLock mem_library
     (mem_adapter\<lparr>lockTime := 5\<rparr>,
      mem_disk\<lparr>files := [''session.lock'' \<mapsto> [0, 0, 0, 0, 0, 0, 0, 5]]\<rparr>) = None
   \<and> checkSessionLock mem_library
     (mem_adapter\<lparr>lockTime := 5\<rparr>,
      mem_disk\<lparr>files := [''session.lock'' \<mapsto> [0, 0, 0, 0, 0, 0, 0, 9]]\<rparr>) = Some SessionLockLost
   \<and> saveChanges mem_library
     (mem_adapter\<lparr>lockTime := 5\<rparr>,
      mem_disk\<lparr>files := [''session.lock'' \<mapsto> [0, 0, 0, 0, 0, 0, 0, 9]]\<rparr>)
     = (Some SessionLockLost,
        (mem_adapter\<lparr>lockTime := 5\<rparr>,
         mem_disk\<lparr>files := [''session.lock'' \<mapsto> [0, 0, 0, 0, 0, 0, 0, 9]]\<rparr>))"
proof -
  have acq: "acquireSessionLock mem_library 5 (mem_adapter, mem_disk)
             = (None, (mem_adapter\<lparr>lockTime := 5\<rparr>,
                       mem_disk\<lparr>files := [''session.lock'' \<mapsto> [0, 0, 0, 0, 0, 0, 0, 5]]\<rparr>))"
    by (simp add: acquireSessionLock_def file_open_wb_def struct_pack_q_def mem_library_def
        mem_disk_def)
  have t: "struct_pack_q 9 = Inr [0, 0, 0, 0, 0, 0, 0, 9]"
    by (simp add: struct_pack_q_def)
  have wr: "\<not> readonly mem_adapter" by (simp add: mem_adapter_def)
  have path: "getFilePath mem_library (revisionHistory mem_adapter) ''session.lock''
              = Inr ''session.lock''"
    by (simp add: mem_library_def)
  have lf: "''session.lock'' \<notin> dirs mem_disk" "writable mem_disk ''session.lock''"
    by (simp_all add: mem_disk_def)
  show ?thesis
    using session_lock_detects_rewrite [OF wr path lf _ _ acq t] by simp
qed

text \<open>
  Claim C10.  On a writable adapter whose lock time is a time since the epoch (not
  negative), a lock file that exists and does not hold exactly eight bytes makes
  \<^verbatim>\<open>checkSessionLock\<close> raise \<^verbatim>\<open>SessionLockLost\<close>: the parse error is caught, the lock counts as -1,
  and -1 is no lock time.
\<close>

theorem checkSessionLock_malformed:
  assumes "\<not> readonly self"
    and "getFilePath lib (revisionHistory self) ''session.lock'' = Inr lockfile"
    and "files d lockfile = Some b" and "length b \<noteq> 8"
    and "0 \<le> lockTime self"
  shows "checkSessionLock lib (self, d) = Some SessionLockLost"
  using assms by (auto simp add: checkSessionLock_def file_read_def struct_unpack_q_def)

theorem checkSessionLock_malformed_witness:
  "checkSessionLock mem_library (mem_adapter, mem_disk\<lparr>files := [''session.lock'' \<mapsto> [1, 2, 3]]\<rparr>)
   = Some SessionLockLost"
  using checkSessionLock_malformed [of mem_adapter mem_library "''session.lock''"
      "mem_disk\<lparr>files := [''session.lock'' \<mapsto> [1, 2, 3]]\<rparr>" "[1, 2, 3]"]
  by (simp add: mem_library_def mem_adapter_def mem_disk_def)

section \<open>Section store: properties\<close>

lemma getSection_rejected:
  "push_bit 4 cy > maxHeight \<or> cy < 0
   \<Longrightarrow> getSection self cy True = (Inl ValueError, self)
     \<and> getSection self cy False = (Inr None, self)"
  by (simp add: getSection_def)

text \<open>
  Claim C6.  The section index 16 has its slab at \<open>16 << 4 = 256 = maxHeight\<close>, outside the
  half-open range from \<open>minHeight\<close> to \<open>maxHeight\<close>; \<^verbatim>\<open>getSection(16, create=True)\<close> on a new
  chunk raises nothing: it makes a blank section with \<open>Y = 16\<close>, registers it and returns it.
\<close>

theorem getSection_index_16_created:
  "push_bit 4 (16::int) = maxHeight
   \<and> \<not> (minHeight \<le> push_bit 4 (16::int) \<and> push_bit 4 (16::int) < maxHeight)
   \<and> (\<exists>c. AnvilChunkData_init 0 0 [] None True = Inr c
          \<and> getSection c 16 True
              = (Inr (Some (AnvilSection_create\<lparr>Y := 16\<rparr>)),
                 c\<lparr>sections := [(16, AnvilSection_create\<lparr>Y := 16\<rparr>)]\<rparr>))"
  by (simp add: maxHeight_def minHeight_def AnvilChunkData_init_def AnvilChunkData_create_def
      seq_def level_get_def tag_get_def tag_contains_def tag_set_def getSection_def Let_def)

section \<open>Players: properties\<close>

text \<open>\<^verbatim>\<open>createPlayer\<close> returns no player, whatever the library, the world and the identifier.\<close>

lemma createPlayer_never_returns:
  "fst (createPlayer lib w uuid) \<noteq> Inr p"
  by (cases w) (simp add: createPlayer_def AnvilPlayerRef_init_def Let_def split: sum.splits)

text \<open>
  Claim C8.  On a writable world whose session lock is valid and which has no player
  \<^verbatim>\<open>abc\<close>, \<^verbatim>\<open>createPlayer("abc")\<close> raises AttributeError with the world as it was (no player file
  is written), and \<^verbatim>\<open>createPlayer("")\<close> raises KeyError, the metadata's root tag having no
  \<^verbatim>\<open>Data\<close> entry of its own.
\<close>

theorem createPlayer_raises_AttributeError:
  "checkSessionLock mem_library
     (mem_adapter, mem_disk\<lparr>files := [''session.lock'' \<mapsto> [0, 0, 0, 0, 0, 0, 0, 0]]\<rparr>) = None
   \<and> createPlayer mem_library
       (mem_adapter, mem_disk\<lparr>files := [''session.lock'' \<mapsto> [0, 0, 0, 0, 0, 0, 0, 0]]\<rparr>) ''abc''
     = (Inl AttributeError,
        (mem_adapter, mem_disk\<lparr>files := [''session.lock'' \<mapsto> [0, 0, 0, 0, 0, 0, 0, 0]]\<rparr>))
   \<and> fst (createPlayer mem_library
       (mem_adapter, mem_disk\<lparr>files := [''session.lock'' \<mapsto> [0, 0, 0, 0, 0, 0, 0, 0]]\<rparr>) [])
     = Inl KeyError"
  by (simp add: createPlayer_def createPlayer_register_def AnvilPlayerRef_init_def
      checkSessionLock_def file_read_def struct_unpack_q_def be_word_def
      metadata_rootTag_def tag_get_def seq_def
      mem_library_def mem_adapter_def mem_disk_def)


section \<open>Opening a world: properties\<close>

lemma assert_version_ok:
  assumes "tag_get tag ''Data'' = Inr (TAG_Compound root)"
    and "int_value (NBTAttr_get root ''version'' (TAG_Int VERSION_ANVIL)) = Inr VERSION_ANVIL"
    and "metadataTag (metadata self) = tag"
  shows "assert_version (self, d) = (Inr self, d)"
  using assms by (simp add: assert_version_def version_def metadata_rootTag_def seq_def)

text \<open>
  The backup branch of \<^verbatim>\<open>__init__\<close>, for every library.  Opening an existing world folder
  for writing, when the lock file can be written, reading or decoding \<^verbatim>\<open>level.dat\<close> raises an
  exception of the kinds caught, \<^verbatim>\<open>level.dat_old\<close> decodes to a tag with a \<^verbatim>\<open>Data\<close> compound
  of the current version, and the store writes all changes through: the adapter is
  returned, its metadata is the backup's tag, \<^verbatim>\<open>saveChanges\<close> has run (the store is the one
  after the write-through, at its head revision), and the metadata's dirty flag is as
  \<^verbatim>\<open>AnvilWorldMetadata\<close> set it, clear.
\<close>

lemma open_restores_backup:
  fixes lib :: "('h, 'r, 'c) library"
  assumes fname: "fname = (if basename lib filename0 = ''level.dat''
                              \<or> basename lib filename0 = ''level.dat_old''
                           then dirname lib filename0 else filename0)"
    and dir: "path_isdir d fname"
    and h: "h = new_RevisionHistory lib fname resume"
    and path: "getFilePath lib h ''session.lock'' = Inr lockfile"
    and lf: "lockfile \<notin> dirs d" "writable d lockfile"
    and now: "struct_pack_q now = Inr b"
    and primary: "seq (readFile lib h (getHead lib h) ''level.dat'') (nbt_load lib) = Inl e"
      "caught_by_first_except e"
    and backup: "readFile lib h (getHead lib h) ''level.dat_old'' = Inr buf"
      "nbt_load lib buf = Inr tag"
      "tag_get tag ''Data'' = Inr (TAG_Compound root)"
      "int_value (NBTAttr_get root ''version'' (TAG_Int VERSION_ANVIL)) = Inr VERSION_ANVIL"
    and store: "writeAllChanges lib h (getHead lib h) = (None, h')"
  shows "AnvilWorldAdapter_init lib now last_played random_seed d filename0 False False resume
         = (Inr \<lparr>filename = fname, readonly = False, lockTime = now,
                  revisionHistory = h', selectedRevision = getHead lib h',
                  metadata = \<lparr>metadataTag = tag, dirty = False\<rparr>\<rparr>,
            d\<lparr>files := (files d)(lockfile \<mapsto> b)\<rparr>)"
proof -
  let ?self = "\<lparr>filename = fname, readonly = False, lockTime = 0,
                 revisionHistory = h, selectedRevision = getHead lib h,
                 metadata = \<lparr>metadataTag = [], dirty = False\<rparr>\<rparr>"
  let ?self1 = "\<lparr>filename = fname, readonly = False, lockTime = now,
                 revisionHistory = h, selectedRevision = getHead lib h,
                 metadata = \<lparr>metadataTag = [], dirty = False\<rparr>\<rparr>"
  let ?d2 = "d\<lparr>files := (files d)(lockfile \<mapsto> b)\<rparr>"
  let ?m = "\<lparr>metadataTag = tag, dirty = False\<rparr>"
  let ?self2 = "\<lparr>filename = fname, readonly = False, lockTime = now,
                 revisionHistory = h, selectedRevision = getHead lib h, metadata = ?m\<rparr>"
  let ?self3 = "\<lparr>filename = fname, readonly = False, lockTime = now,
                 revisionHistory = h', selectedRevision = getHead lib h', metadata = ?m\<rparr>"
  have ex: "path_exists d fname" using dir by (simp add: path_exists_def path_isdir_def)
  have acq: "acquireSessionLock lib now (?self, d) = (None, (?self1, ?d2))"
    using acquireSessionLock_ok [of lib ?self lockfile d now b] path lf now by simp
  have l1: "load_metadata lib ?self1 ''level.dat'' = Inl e"
    using primary(1) by (auto simp add: load_metadata_def seq_def split: sum.splits)
  have l2: "load_metadata lib ?self1 ''level.dat_old'' = Inr ?m"
    using backup by (simp add: load_metadata_def seq_def AnvilWorldMetadata_init_def)
  have chk: "checkSessionLock lib (?self2, ?d2) = None"
    using checkSessionLock_packed [of ?self2 lib lockfile ?d2 b now] path now
    by simp
  have sv: "saveChanges lib (?self2, ?d2) = (None, (?self3, ?d2))"
    using chk store by (simp add: saveChanges_def)
  have av: "assert_version (?self3, ?d2) = (Inr ?self3, ?d2)"
    by (rule assert_version_ok [OF backup(3,4)]) simp
  show ?thesis
    unfolding AnvilWorldAdapter_init_def
    using fname [symmetric] ex dir h [symmetric] primary(2)
    by (simp add: Let_def acq l1 l2 sv av)
qed

lemma open_restores_backup_at_mem_world:
  "AnvilWorldAdapter_init mem_library 5 6 7 mem_disk ''world'' False False None
   = (Inr \<lparr>filename = ''world'', readonly = False, lockTime = 5,
            revisionHistory = [(''level.dat_old'', [7])], selectedRevision = 0,
            metadata = \<lparr>metadataTag = [(''Data'', TAG_Compound [(''version'', TAG_Int VERSION_ANVIL),
                                              (''Time'', TAG_Long 7)])], dirty = False\<rparr>\<rparr>,
      mem_disk\<lparr>files := [''session.lock'' \<mapsto> [0, 0, 0, 0, 0, 0, 0, 5]]\<rparr>)"
proof -
  let ?h = "[(''level.dat_old'', [7 :: 8 word])]"
  let ?root = "[(''version'', TAG_Int VERSION_ANVIL), (''Time'', TAG_Long 7)]"
  have fname: "''world'' = (if basename mem_library ''world'' = ''level.dat''
                              \<or> basename mem_library ''world'' = ''level.dat_old''
                           then dirname mem_library ''world'' else ''world'')"
    by (simp add: mem_library_def)
  have dir: "path_isdir mem_disk ''world''" by (simp add: path_isdir_def mem_disk_def)
  have h: "?h = new_RevisionHistory mem_library ''world'' None" by (simp add: mem_library_def)
  have path: "getFilePath mem_library ?h ''session.lock'' = Inr ''session.lock''"
    by (simp add: mem_library_def)
  have lf: "''session.lock'' \<notin> dirs mem_disk" "writable mem_disk ''session.lock''"
    by (simp_all add: mem_disk_def)
  have now: "struct_pack_q 5 = Inr [0, 0, 0, 0, 0, 0, 0, 5]"
    by (simp add: struct_pack_q_def)
  have primary: "seq (readFile mem_library ?h (getHead mem_library ?h) ''level.dat'')
                   (nbt_load mem_library) = Inl IOError"
    "caught_by_first_except IOError"
    by (simp_all add: mem_library_def seq_def caught_by_first_except_def)
  have backup: "readFile mem_library ?h (getHead mem_library ?h) ''level.dat_old'' = Inr [7]"
    "nbt_load mem_library [7] = Inr [(''Data'', TAG_Compound ?root)]"
    "tag_get [(''Data'', TAG_Compound ?root)] ''Data'' = Inr (TAG_Compound ?root)"
    "int_value (NBTAttr_get ?root ''version'' (TAG_Int VERSION_ANVIL)) = Inr VERSION_ANVIL"
    by (simp_all add: mem_library_def mem_load_def tag_get_def NBTAttr_get_def)
  have store: "writeAllChanges mem_library ?h (getHead mem_library ?h) = (None, ?h)"
    by (simp add: mem_library_def)
  have head: "getHead mem_library ?h = 0" by (simp add: mem_library_def)
  show ?thesis
    using open_restores_backup [OF fname dir h path lf now primary backup store, of 6 7]
    by (simp only: head mem_disk_def disk.simps fun_upd_def)
qed


text \<open>
  Claim C7.  In the world in memory \<^verbatim>\<open>level.dat\<close> cannot be read and \<^verbatim>\<open>level.dat_old\<close> is valid.
  Opened for writing, the world opens with the backup as its metadata, but the restored
  values are not persisted and not marked for it: the dirty flag is clear, so
  \<^verbatim>\<open>syncToDisk\<close> writes nothing, \<^verbatim>\<open>saveChanges\<close> (which \<^verbatim>\<open>__init__\<close> has already called once) writes
  no \<^verbatim>\<open>level.dat\<close>, and \<^verbatim>\<open>level.dat\<close> is as unreadable as before.
\<close>

theorem open_from_backup_never_persists:
  "\<exists>a d'. AnvilWorldAdapter_init mem_library 5 6 7 mem_disk ''world'' False False None = (Inr a, d')
      \<and> load_metadata mem_library a ''level.dat'' = Inl IOError
      \<and> load_metadata mem_library a ''level.dat_old'' = Inr (metadata a)
      \<and> \<not> dirty (metadata a)
      \<and> syncToDisk mem_library a = (None, a)
      \<and> saveChanges mem_library (a, d') = (None, (a, d'))"
  by (simp add: AnvilWorldAdapter_init_def mem_library_def mem_disk_def mem_load_def
      path_isdir_def path_exists_def seq_def caught_by_first_except_def tag_get_def
      NBTAttr_get_def acquireSessionLock_def file_open_wb_def struct_pack_q_def
      load_metadata_def AnvilWorldMetadata_init_def saveChanges_def checkSessionLock_def
      file_read_def struct_unpack_q_def be_word_def assert_version_def version_def
      metadata_rootTag_def VERSION_ANVIL_def syncToDisk_def Let_def)

theorem open_from_backup_never_persists_witness:
  "\<exists>a d'. AnvilWorldAdapter_init mem_library 5 6 7 mem_disk ''world'' False False None = (Inr a, d')
      \<and> \<not> dirty (metadata a)
      \<and> syncToDisk mem_library a = (None, a)"
  using open_from_backup_never_persists by blast

text \<open>
  The branch that synthesises defaults does mark them for persistence: every value it
  sets goes through an attribute setter, which sets the dirty flag.
\<close>

lemma createMetadataTag_dirty:
  "createMetadataTag lib last_played random_seed self = Inr self' \<Longrightarrow> dirty (metadata self')"
  by (auto simp: createMetadataTag_def AnvilWorldMetadata_init_def NBTAttr_set_def
      metadata_rootTag_def metadata_set_rootTag_def tag_get_def tag_set_def seq_def Let_def
      split: sum.splits option.splits nbt.splits)

text \<open>
  Opened read only, the same world ends with the synthesised defaults: \<^verbatim>\<open>saveChanges\<close> raises
  on a read-only adapter and the handler of the backup path takes that for a failed load.
\<close>

lemma open_readonly_ignores_backup:
  "\<exists>a d'. AnvilWorldAdapter_init mem_library 5 6 7 mem_disk ''world'' False True None = (Inr a, d')
      \<and> load_metadata mem_library a ''level.dat_old''
          = Inr \<lparr>metadataTag = [(''Data'', TAG_Compound [(''version'', TAG_Int VERSION_ANVIL),
                                              (''Time'', TAG_Long 7)])], dirty = False\<rparr>
      \<and> map_of (metadataTag (metadata a)) ''Data''
          = Some (TAG_Compound
               [(''SpawnX'', TAG_Int 0), (''SpawnY'', TAG_Int 2), (''SpawnZ'', TAG_Int 0),
                (''version'', TAG_Int VERSION_ANVIL), (''LastPlayed'', TAG_Long 6),
                (''RandomSeed'', TAG_Long 7), (''SizeOnDisk'', TAG_Long 0),
                (''Time'', TAG_Long 1), (''LevelName'', TAG_String ''world'')])
      \<and> dirty (metadata a)"
  by (simp add: AnvilWorldAdapter_init_def mem_library_def mem_disk_def mem_load_def
      path_isdir_def path_exists_def seq_def caught_by_first_except_def tag_get_def
      NBTAttr_get_def load_metadata_def AnvilWorldMetadata_init_def saveChanges_def
      assert_version_def version_def init_defaults_def createMetadataTag_def
      NBTAttr_set_def metadata_set_rootTag_def tag_set_def
      metadata_rootTag_def VERSION_ANVIL_def Let_def)

end
